theory Spec2Isabelle
  imports Main "HOL-Library.Sublist"
begin

section \<open>Go strings and the library functions the classifier calls\<close>

text \<open>
  A Go string is a sequence of bytes, here a \<open>string\<close> (a list of 8-bit \<open>char\<close>s).
  The functions of this section belong to Go's standard library (\<open>strings\<close>,
  \<open>regexp\<close>, \<open>path/filepath\<close> on a Unix system, \<open>bufio\<close>); they are written out
  after the library's documentation and source, since \<open>mdweb.go\<close> calls them.
\<close>

text \<open>
  \<open>strings.TrimSpace\<close> removes the leading and trailing white space as
  \<open>unicode.IsSpace\<close> defines it. On the bytes of a string these are the UTF-8
  encodings of U+0009..U+000D, U+0020, U+0085, U+00A0, U+1680, U+2000..U+200A, U+2028,
  U+2029, U+202F, U+205F and U+3000; a byte that is not part of a valid encoding decodes
  to U+FFFD, which is not white space.
\<close>

definition spaceEncodings :: "string list" where
  "spaceEncodings =
    [[CHR 0x09], [CHR 0x0A], [CHR 0x0B], [CHR 0x0C], [CHR 0x0D], [CHR 0x20],
     [CHR 0xC2, CHR 0x85], [CHR 0xC2, CHR 0xA0],
     [CHR 0xE1, CHR 0x9A, CHR 0x80],
     [CHR 0xE2, CHR 0x80, CHR 0x80], [CHR 0xE2, CHR 0x80, CHR 0x81],
     [CHR 0xE2, CHR 0x80, CHR 0x82], [CHR 0xE2, CHR 0x80, CHR 0x83],
     [CHR 0xE2, CHR 0x80, CHR 0x84], [CHR 0xE2, CHR 0x80, CHR 0x85],
     [CHR 0xE2, CHR 0x80, CHR 0x86], [CHR 0xE2, CHR 0x80, CHR 0x87],
     [CHR 0xE2, CHR 0x80, CHR 0x88], [CHR 0xE2, CHR 0x80, CHR 0x89],
     [CHR 0xE2, CHR 0x80, CHR 0x8A],
     [CHR 0xE2, CHR 0x80, CHR 0xA8], [CHR 0xE2, CHR 0x80, CHR 0xA9],
     [CHR 0xE2, CHR 0x80, CHR 0xAF], [CHR 0xE2, CHR 0x81, CHR 0x9F],
     [CHR 0xE3, CHR 0x80, CHR 0x80]]"

function TrimLeftSpace :: "string \<Rightarrow> string" where
  "TrimLeftSpace s =
     (case find (\<lambda>e. prefix e s) spaceEncodings of
        None \<Rightarrow> s
      | Some e \<Rightarrow> TrimLeftSpace (drop (length e) s))"
  by pat_completeness auto
termination
proof (relation "measure length")
  show "wf (measure length)" by simp
next
  fix s :: string and e
  assume "find (\<lambda>e. prefix e s) spaceEncodings = Some e"
  then have "e \<in> set spaceEncodings" and "prefix e s"
    by (auto simp: find_Some_iff)
  then have "e \<noteq> []" and "length e \<le> length s"
    by (auto simp: spaceEncodings_def prefix_length_le)
  then show "(drop (length e) s, s) \<in> measure length"
    by (cases e) auto
qed

function TrimRightSpace :: "string \<Rightarrow> string" where
  "TrimRightSpace s =
     (case find (\<lambda>e. suffix e s) spaceEncodings of
        None \<Rightarrow> s
      | Some e \<Rightarrow> TrimRightSpace (take (length s - length e) s))"
  by pat_completeness auto
termination
proof (relation "measure length")
  show "wf (measure length)" by simp
next
  fix s :: string and e
  assume "find (\<lambda>e. suffix e s) spaceEncodings = Some e"
  then have "e \<in> set spaceEncodings" and "suffix e s"
    by (auto simp: find_Some_iff)
  then have "e \<noteq> []" and "length e \<le> length s"
    by (auto simp: spaceEncodings_def suffix_length_le)
  then show "(take (length s - length e) s, s) \<in> measure length"
    by (cases e) auto
qed

definition TrimSpace :: "string \<Rightarrow> string" where
  "TrimSpace s = TrimRightSpace (TrimLeftSpace s)"

text \<open>
  The regular expression \<open>^<<(.*)>>\s*$\<close> in Go's RE2 syntax: \<open>.\<close> is any character
  but the newline, \<open>\s\<close> is one of tab, newline, form feed, carriage return and space, and
  \<open>$\<close> is the end of the text. \<open>rxDirective_matches s c\<close> says that the expression
  matches \<open>s\<close> with group 1 equal to \<open>c\<close>.
\<close>

definition rxSpace :: "char \<Rightarrow> bool" where
  "rxSpace c \<longleftrightarrow> c = CHR 0x09 \<or> c = CHR 0x0A \<or> c = CHR 0x0C \<or> c = CHR 0x0D \<or> c = CHR 0x20"

definition rxDirective_matches :: "string \<Rightarrow> string \<Rightarrow> bool" where
  "rxDirective_matches s c \<longleftrightarrow>
     (\<exists>w. s = ''<<'' @ c @ ''>>'' @ w \<and> CHR 0x0A \<notin> set c \<and> (\<forall>x \<in> set w. rxSpace x))"

text \<open>
  \<open>rxDirective.FindStringSubmatch(s)\<close>, reduced to \<open>matches[1]\<close>, the only part of the
  result that \<open>parseDirective\<close> reads; \<open>None\<close> is the nil slice of a failed match.
  The text after the last \<open>>\<close> must be white space, so the group is what is left
  between the leading \<open><<\<close> and the \<open>>>\<close> in front of the trailing white space.
\<close>

definition rxDirective_FindStringSubmatch :: "string \<Rightarrow> string option" where
  "rxDirective_FindStringSubmatch s =
     (if prefix ''<<'' s then
        (let t = rev (dropWhile rxSpace (rev (drop 2 s)));
             c = take (length t - 2) t
         in if suffix ''>>'' t \<and> CHR 0x0A \<notin> set c then Some c else None)
      else None)"

text \<open>
  \<open>filepath.Base\<close> on a Unix system: the last element of the path, with trailing
  slashes removed first; \<open>"."\<close> for the empty path and \<open>"/"\<close> for a path of slashes only.
\<close>

definition Base :: "string \<Rightarrow> string" where
  "Base path =
     (if path = [] then ''.''
      else (let p = rev (dropWhile (\<lambda>c. c = CHR ''/'') (rev path));
                e = rev (takeWhile (\<lambda>c. c \<noteq> CHR ''/'') (rev p))
            in if e = [] then ''/'' else e))"

text \<open>
  \<open>filepath.Ext\<close>: the suffix that begins at the last dot of the last element of the
  path, empty if that element has no dot. The library scans from the end and stops at a
  dot or at a slash.
\<close>

definition Ext :: "string \<Rightarrow> string" where
  "Ext path =
     (case dropWhile (\<lambda>c. c \<noteq> CHR ''.'' \<and> c \<noteq> CHR ''/'') (rev path) of
        [] \<Rightarrow> []
      | c # _ \<Rightarrow>
          if c = CHR ''.''
          then c # rev (takeWhile (\<lambda>c. c \<noteq> CHR ''.'' \<and> c \<noteq> CHR ''/'') (rev path))
          else [])"

text \<open>
  \<open>reader.ReadString('\n')\<close> on the unread rest of a file: the bytes up to and
  including the first newline, or, if there is none, all the bytes with the error
  \<open>io.EOF\<close> (the third component). The file is read without any other error.
\<close>

definition ReadString :: "string \<Rightarrow> string \<times> string \<times> bool" where
  "ReadString input =
     (case dropWhile (\<lambda>c. c \<noteq> CHR 0x0A) input of
        [] \<Rightarrow> (input, [], True)
      | nl # rest \<Rightarrow> (takeWhile (\<lambda>c. c \<noteq> CHR 0x0A) input @ [nl], rest, False))"

text \<open>
  The lines that the loop of \<open>ProcessFile\<close> reads and hands to \<open>processLine\<close>: it
  calls \<open>ReadString\<close> until the error is \<open>io.EOF\<close>, and processes the last, unterminated
  line as well, also when that line is empty.
\<close>

function readLines :: "string \<Rightarrow> string list" where
  "readLines input =
     (let line = fst (ReadString input);
          rest = fst (snd (ReadString input));
          eof = snd (snd (ReadString input))
      in if eof then [line] else line # readLines rest)"
  by pat_completeness auto
termination
proof (relation "measure length")
  show "wf (measure length)" by simp
next
  fix input line rest :: string and eof
  assume r: "rest = fst (snd (ReadString input))" and e: "eof = snd (snd (ReadString input))"
    and ne: "\<not> eof"
  show "(rest, input) \<in> measure length"
  proof (cases "dropWhile (\<lambda>c. c \<noteq> CHR 0x0A) input")
    case Nil
    then have "snd (snd (ReadString input))"
      by (simp only: ReadString_def list.case snd_conv)
    with e ne show ?thesis by simp
  next
    case (Cons nl rest')
    then have "fst (snd (ReadString input)) = rest'"
      by (simp only: ReadString_def list.case snd_conv fst_conv)
    with r have "length rest < length (dropWhile (\<lambda>c. c \<noteq> CHR 0x0A) input)"
      by (simp only: Cons list.size)
    also have "\<dots> \<le> length input"
      by (rule length_dropWhile_le)
    finally show ?thesis by simp
  qed
qed

declare readLines.simps [simp del]

section \<open>The default output names of \<open>mdweb.go\<close>\<close>

definition removeExtension :: "string \<Rightarrow> string" where
  "removeExtension filename =
     (let filename = Base filename;
          ext = Ext filename
      in take (length filename - length ext) filename)"

text \<open>
  The loop of \<open>removeExtensions\<close> with its two variables \<open>f1\<close> and \<open>f2\<close>; the result is
  \<open>None\<close> if the loop does not end.
\<close>

partial_function (option) removeExtensions_loop :: "string \<Rightarrow> string \<Rightarrow> string option" where
  "removeExtensions_loop f1 f2 =
     (if f1 \<noteq> f2 then removeExtensions_loop f2 (removeExtension f2) else Some f2)"

definition removeExtensions :: "string \<Rightarrow> string option" where
  "removeExtensions filename = removeExtensions_loop filename (removeExtension filename)"

section \<open>The line classifier of \<open>mdweb.go\<close>\<close>

text \<open>
  The \<open>Line\<close> struct; an empty string is Go's zero value and stands for an absent
  field: \<open>ProcessFiles\<close> writes a line's code only if \<open>CodeTarget \<noteq> ""\<close> and its text
  only if \<open>TextTarget \<noteq> ""\<close>.
\<close>

record Line =
  Code :: string
  CodeTarget :: string
  Text :: string
  TextTarget :: string

text \<open>
  The type \<open>lineType\<close> with its four constants \<open>Code\<close>, \<open>Boilerplate\<close>, \<open>Example\<close>,
  \<open>Text\<close>; the suffix keeps them apart from the fields of \<open>Line\<close>.
\<close>

datatype lineType = Code_state | Boilerplate_state | Example_state | Text_state

text \<open>
  The package-level variables \<open>state\<close>, \<open>defaultCodeOutput\<close>, \<open>defaultTextOutput\<close> and
  \<open>currentTarget\<close>, passed explicitly.
\<close>

record globals =
  state :: lineType
  defaultCodeOutput :: string
  defaultTextOutput :: string
  currentTarget :: string

text \<open>The values the variables have when the program starts (\<open>var state = Text\<close>).\<close>

definition initial_globals :: globals where
  "initial_globals =
     \<lparr>state = Text_state, defaultCodeOutput = [], defaultTextOutput = [], currentTarget = []\<rparr>"

definition unindent :: "string \<Rightarrow> string \<times> bool" where
  "unindent line =
     (if prefix [CHR 0x09] line then (drop 1 line, True)
      else if prefix ''    '' line then (drop 4 line, True)
      else (line, False))"

definition parseDirective :: "string \<Rightarrow> string option" where
  "parseDirective line =
     (case unindent line of
        (rest, isIndented) \<Rightarrow>
          if \<not> isIndented then None
          else (case rxDirective_FindStringSubmatch rest of
                  None \<Rightarrow> None
                | Some c \<Rightarrow> Some (TrimSpace c)))"

definition processDirective :: "string \<Rightarrow> globals \<Rightarrow> globals" where
  "processDirective directive g =
     (if directive = ''!--'' then g\<lparr>state := Example_state\<rparr>
      else if directive = ''#--'' then g\<lparr>state := Boilerplate_state\<rparr>
      else if directive = [] then g\<lparr>state := Code_state, currentTarget := defaultCodeOutput g\<rparr>
      else g\<lparr>state := Code_state, currentTarget := directive\<rparr>)"

text \<open>
  \<open>processLine\<close> returns the variables after the call and the record it sends on the
  channel, if it sends one.
\<close>

definition processLine :: "string \<Rightarrow> globals \<Rightarrow> globals \<times> Line option" where
  "processLine line g =
     (case parseDirective line of
        Some directive \<Rightarrow> (processDirective directive g, None)
      | None \<Rightarrow>
          (let codeLine = fst (unindent line);
               isCode = snd (unindent line);
               isBlank = (TrimSpace line = [])
           in case state g of
                Code_state \<Rightarrow>
                  if isCode \<or> isBlank then
                    (g, Some \<lparr>Code = codeLine, CodeTarget = currentTarget g,
                              Text = line, TextTarget = defaultTextOutput g\<rparr>)
                  else
                    (g\<lparr>state := Text_state\<rparr>,
                     Some \<lparr>Code = [], CodeTarget = [],
                           Text = line, TextTarget = defaultTextOutput g\<rparr>)
              | Boilerplate_state \<Rightarrow>
                  if isCode \<or> isBlank then
                    (g, Some \<lparr>Code = codeLine, CodeTarget = currentTarget g,
                              Text = [], TextTarget = []\<rparr>)
                  else
                    (g\<lparr>state := Text_state\<rparr>,
                     Some \<lparr>Code = [], CodeTarget = [],
                           Text = line, TextTarget = defaultTextOutput g\<rparr>)
              | Example_state \<Rightarrow>
                  if isCode \<or> isBlank then
                    (g, Some \<lparr>Code = [], CodeTarget = [],
                              Text = line, TextTarget = defaultTextOutput g\<rparr>)
                  else
                    (g\<lparr>state := Text_state\<rparr>,
                     Some \<lparr>Code = [], CodeTarget = [],
                           Text = line, TextTarget = defaultTextOutput g\<rparr>)
              | Text_state \<Rightarrow>
                  if isCode then
                    (g\<lparr>state := Code_state\<rparr>,
                     Some \<lparr>Code = codeLine, CodeTarget = currentTarget g,
                           Text = line, TextTarget = defaultTextOutput g\<rparr>)
                  else
                    (g, Some \<lparr>Code = [], CodeTarget = [],
                              Text = line, TextTarget = defaultTextOutput g\<rparr>)))"

text \<open>The loop of \<open>ProcessFile\<close> over the lines read: the variables at the end and the
  records sent on the channel, in order.\<close>

fun processLines :: "string list \<Rightarrow> globals \<Rightarrow> globals \<times> Line list" where
  "processLines [] g = (g, [])"
| "processLines (line # rest) g =
     (case processLine line g of
        (g', sent) \<Rightarrow>
          (case processLines rest g' of
             (g'', out) \<Rightarrow> (g'', (case sent of None \<Rightarrow> [] | Some r \<Rightarrow> [r]) @ out)))"

text \<open>
  The first three statements of \<open>ProcessFile\<close>, which set \<open>defaultCodeOutput\<close>,
  \<open>defaultTextOutput\<close> and \<open>currentTarget\<close>. They do not assign \<open>state\<close>.
\<close>

definition ProcessFile_defaults :: "string \<Rightarrow> globals \<Rightarrow> globals option" where
  "ProcessFile_defaults filename g =
     (case removeExtensions filename of
        None \<Rightarrow> None
      | Some allRemoved \<Rightarrow>
          Some (g\<lparr>defaultCodeOutput := removeExtension filename,
                  defaultTextOutput := allRemoved @ ''.md'',
                  currentTarget := removeExtension filename\<rparr>))"

datatype error = OpenError

text \<open>
  \<open>ProcessFile\<close>, given the contents of the file named \<open>filename\<close> (\<open>None\<close> if
  \<open>os.Open\<close> fails). The result is \<open>None\<close> if the call does not return; otherwise it holds
  the variables at the end and either the error or the records received from the channel
  until it is closed.
\<close>

definition ProcessFile ::
    "string \<Rightarrow> string option \<Rightarrow> globals \<Rightarrow> (globals \<times> (error + Line list)) option" where
  "ProcessFile filename file g =
     (case ProcessFile_defaults filename g of
        None \<Rightarrow> None
      | Some g1 \<Rightarrow>
          (case file of
             None \<Rightarrow> Some (g1, Inl OpenError)
           | Some content \<Rightarrow>
               (case processLines (readLines content) g1 of
                  (g2, out) \<Rightarrow> Some (g2, Inr out))))"

section \<open>The variant with state functions\<close>

text \<open>
  A second source file holds the same classifier written with closures: four state
  functions \<open>stateCode\<close>, \<open>stateBoilerplate\<close>, \<open>stateExample\<close> and \<open>stateText\<close>, each
  sending one record and returning the next bound state, and \<open>partialState s data\<close>, the
  closure that looks for a directive first and calls \<open>s\<close> otherwise. A closure is
  represented by the state function and the data it has captured.
\<close>

record StateData =
  DefaultCodeOutput :: string
  DefaultTextOutput :: string
  CurrentTarget :: string

datatype State = StateCode | StateBoilerplate | StateExample | StateText

datatype BoundState = partialState State StateData

definition stateCode :: "StateData \<Rightarrow> string \<Rightarrow> Line \<times> BoundState" where
  "stateCode data inputLine =
     (let codeLine = fst (unindent inputLine);
          isCode = snd (unindent inputLine);
          isBlank = (TrimSpace inputLine = [])
      in if isCode \<or> isBlank then
           (\<lparr>Code = codeLine, CodeTarget = CurrentTarget data,
             Text = inputLine, TextTarget = DefaultTextOutput data\<rparr>,
            partialState StateCode data)
         else
           (\<lparr>Code = [], CodeTarget = [],
             Text = inputLine, TextTarget = DefaultTextOutput data\<rparr>,
            partialState StateText data))"

definition stateBoilerplate :: "StateData \<Rightarrow> string \<Rightarrow> Line \<times> BoundState" where
  "stateBoilerplate data inputLine =
     (let codeLine = fst (unindent inputLine);
          isCode = snd (unindent inputLine);
          isBlank = (TrimSpace inputLine = [])
      in if isCode \<or> isBlank then
           (\<lparr>Code = codeLine, CodeTarget = CurrentTarget data, Text = [], TextTarget = []\<rparr>,
            partialState StateBoilerplate data)
         else
           (\<lparr>Code = [], CodeTarget = [],
             Text = inputLine, TextTarget = DefaultTextOutput data\<rparr>,
            partialState StateText data))"

definition stateExample :: "StateData \<Rightarrow> string \<Rightarrow> Line \<times> BoundState" where
  "stateExample data inputLine =
     (let isCode = snd (unindent inputLine);
          isBlank = (TrimSpace inputLine = [])
      in if isCode \<or> isBlank then
           (\<lparr>Code = [], CodeTarget = [],
             Text = inputLine, TextTarget = DefaultTextOutput data\<rparr>,
            partialState StateExample data)
         else
           (\<lparr>Code = [], CodeTarget = [],
             Text = inputLine, TextTarget = DefaultTextOutput data\<rparr>,
            partialState StateText data))"

definition stateText :: "StateData \<Rightarrow> string \<Rightarrow> Line \<times> BoundState" where
  "stateText data inputLine =
     (let codeLine = fst (unindent inputLine);
          isCode = snd (unindent inputLine)
      in if isCode then
           (\<lparr>Code = codeLine, CodeTarget = CurrentTarget data,
             Text = inputLine, TextTarget = DefaultTextOutput data\<rparr>,
            partialState StateCode data)
         else
           (\<lparr>Code = [], CodeTarget = [],
             Text = inputLine, TextTarget = DefaultTextOutput data\<rparr>,
            partialState StateText data))"

text \<open>\<open>processDirective(data, directive)\<close> of this variant; \<open>data\<close> is passed by value.\<close>

definition processDirective_bound :: "StateData \<Rightarrow> string \<Rightarrow> BoundState" where
  "processDirective_bound data directive =
     (if directive = ''!--'' then partialState StateExample data
      else if directive = ''#--'' then partialState StateBoilerplate data
      else if directive = [] then
        partialState StateCode (data\<lparr>CurrentTarget := DefaultCodeOutput data\<rparr>)
      else partialState StateCode (data\<lparr>CurrentTarget := directive\<rparr>))"

text \<open>Calling a bound state with a line: the record sent, if any, and the next bound state.\<close>

fun callBound :: "BoundState \<Rightarrow> string \<Rightarrow> Line option \<times> BoundState" where
  "callBound (partialState s data) inputLine =
     (case parseDirective inputLine of
        Some directive \<Rightarrow> (None, processDirective_bound data directive)
      | None \<Rightarrow>
          (let called = (case s of
                           StateCode \<Rightarrow> stateCode data inputLine
                         | StateBoilerplate \<Rightarrow> stateBoilerplate data inputLine
                         | StateExample \<Rightarrow> stateExample data inputLine
                         | StateText \<Rightarrow> stateText data inputLine)
           in (Some (fst called), snd called)))"

text \<open>The variables of \<open>mdweb.go\<close> that a bound state stands for.\<close>

fun globals_of :: "BoundState \<Rightarrow> globals" where
  "globals_of (partialState s data) =
     \<lparr>state = (case s of StateCode \<Rightarrow> Code_state | StateBoilerplate \<Rightarrow> Boilerplate_state
                | StateExample \<Rightarrow> Example_state | StateText \<Rightarrow> Text_state),
      defaultCodeOutput = DefaultCodeOutput data,
      defaultTextOutput = DefaultTextOutput data,
      currentTarget = CurrentTarget data\<rparr>"

text \<open>
  The loop of \<open>ProcessFile\<close> in this variant, over the lines that the scanner yields:
  \<open>currentState = currentState(scanner.Text())\<close>.
\<close>

fun callBounds :: "BoundState \<Rightarrow> string list \<Rightarrow> Line list \<times> BoundState" where
  "callBounds currentState [] = ([], currentState)"
| "callBounds currentState (line # rest) =
     (case callBound currentState line of
        (sent, next) \<Rightarrow>
          (case callBounds next rest of
             (out, final) \<Rightarrow> ((case sent of None \<Rightarrow> [] | Some r \<Rightarrow> [r]) @ out, final)))"

section \<open>Notions of the specification\<close>

text \<open>A directive line is a line that \<open>parseDirective\<close> accepts.\<close>

definition isDirective :: "string \<Rightarrow> bool" where
  "isDirective line \<longleftrightarrow> parseDirective line \<noteq> None"

definition withoutDirectives :: "string list \<Rightarrow> string list" where
  "withoutDirectives lines = filter (\<lambda>line. \<not> isDirective line) lines"

text \<open>
  The documentation stream: the \<open>Text\<close> fields of the records whose \<open>TextTarget\<close> is not
  empty, concatenated in the order of emission (what \<open>ProcessFiles\<close> prints to the text
  file with \<open>fmt.Fprint\<close>).
\<close>

definition weave :: "Line list \<Rightarrow> string" where
  "weave out = concat (map Text (filter (\<lambda>r. TextTarget r \<noteq> []) out))"

text \<open>
  The lines of a document that are neither directives nor part of a boilerplate run (an
  indented or blank line read in state \<open>Boilerplate\<close>), given the variables before the
  first line.
\<close>

fun textLines :: "string list \<Rightarrow> globals \<Rightarrow> string list" where
  "textLines [] g = []"
| "textLines (line # rest) g =
     (if isDirective line
         \<or> (state g = Boilerplate_state \<and> (snd (unindent line) \<or> TrimSpace line = []))
      then [] else [line])
     @ textLines rest (fst (processLine line g))"

text \<open>
  A name without its final extension, and without all its extensions: the part before
  the last dot, and the part before the first dot.
\<close>

definition spec_final_extension_removed :: "string \<Rightarrow> string" where
  "spec_final_extension_removed name =
     (if CHR ''.'' \<in> set name then rev (tl (dropWhile (\<lambda>c. c \<noteq> CHR ''.'') (rev name)))
      else name)"

definition spec_all_extensions_removed :: "string \<Rightarrow> string" where
  "spec_all_extensions_removed name = takeWhile (\<lambda>c. c \<noteq> CHR ''.'') name"

text \<open>
  The rows of the transition table that emit a code record: an indented line in state
  \<open>Text\<close>, and an indented or blank line in state \<open>Code\<close> or \<open>Boilerplate\<close>.
\<close>

definition codeRow :: "globals \<Rightarrow> string \<Rightarrow> bool" where
  "codeRow g line \<longleftrightarrow>
     (state g = Text_state \<and> snd (unindent line)) \<or>
     ((state g = Code_state \<or> state g = Boilerplate_state) \<and>
      (snd (unindent line) \<or> TrimSpace line = []))"

section \<open>File names\<close>

lemma rev_split:
  "xs = rev (dropWhile P (rev xs)) @ rev (takeWhile P (rev xs))"
proof -
  have "rev (rev (dropWhile P (rev xs)) @ rev (takeWhile P (rev xs))) = rev xs"
    by simp
  then show ?thesis by (simp only: rev_is_rev_conv)
qed

lemma Base_nonempty: "Base f \<noteq> []"
  by (simp add: Base_def Let_def)

lemma Base_slash_free: "Base f = ''/'' \<or> CHR ''/'' \<notin> set (Base f)"
  by (auto simp: Base_def Let_def dest: set_takeWhileD)

lemma Base_decomp:
  assumes "f \<noteq> []"
  shows "\<exists>pre post. f = pre @ Base f @ post"
proof -
  let ?p = "rev (dropWhile (\<lambda>c. c = CHR ''/'') (rev f))"
  let ?e = "rev (takeWhile (\<lambda>c. c \<noteq> CHR ''/'') (rev ?p))"
  have f: "f = ?p @ rev (takeWhile (\<lambda>c. c = CHR ''/'') (rev f))"
    by (rule rev_split)
  have p: "?p = rev (dropWhile (\<lambda>c. c \<noteq> CHR ''/'') (rev ?p)) @ ?e"
    by (rule rev_split)
  show ?thesis
  proof (cases "?e = []")
    case False
    then have "Base f = ?e" using assms by (simp add: Base_def Let_def)
    with f p have "f = rev (dropWhile (\<lambda>c. c \<noteq> CHR ''/'') (rev ?p)) @ Base f
                      @ rev (takeWhile (\<lambda>c. c = CHR ''/'') (rev f))"
      by simp
    then show ?thesis by blast
  next
    case True
    then have b: "Base f = ''/''" using assms by (simp add: Base_def Let_def)
    show ?thesis
    proof (cases "?p = []")
      case True
      then have "\<forall>c \<in> set f. c = CHR ''/''"
        by (simp add: dropWhile_eq_Nil_conv)
      with assms have "f = [] @ ''/'' @ tl f" by (cases f) auto
      with b show ?thesis by metis
    next
      case False
      then have "dropWhile (\<lambda>c. c = CHR ''/'') (rev f) \<noteq> []" by simp
      then have "hd (dropWhile (\<lambda>c. c = CHR ''/'') (rev f)) \<noteq> CHR ''/''"
        by (rule hd_dropWhile)
      moreover from True False have "hd (rev ?p) = CHR ''/''"
        by (cases "rev ?p") (auto split: if_splits)
      ultimately show ?thesis by simp
    qed
  qed
qed

lemma Base_idem: "CHR ''/'' \<notin> set s \<Longrightarrow> s \<noteq> [] \<Longrightarrow> Base s = s"
proof -
  assume a: "CHR ''/'' \<notin> set s" "s \<noteq> []"
  then have 1: "dropWhile (\<lambda>c. c = CHR ''/'') (rev s) = rev s"
    by (cases "rev s") auto
  from a have 2: "takeWhile (\<lambda>c. c \<noteq> CHR ''/'') (rev s) = rev s"
    by (auto intro: takeWhile_eq_all_conv[THEN iffD2])
  show ?thesis using a by (simp add: Base_def Let_def 1 2)
qed

lemma Ext_slash_free:
  assumes "CHR ''/'' \<notin> set b"
  shows "Ext b = (if CHR ''.'' \<in> set b
                  then CHR ''.'' # rev (takeWhile (\<lambda>c. c \<noteq> CHR ''.'') (rev b)) else [])"
proof -
  have tw: "takeWhile (\<lambda>c. c \<noteq> CHR ''.'' \<and> c \<noteq> CHR ''/'') (rev b)
            = takeWhile (\<lambda>c. c \<noteq> CHR ''.'') (rev b)"
    using assms by (intro takeWhile_cong) auto
  have dw: "dropWhile (\<lambda>c. c \<noteq> CHR ''.'' \<and> c \<noteq> CHR ''/'') (rev b)
            = dropWhile (\<lambda>c. c \<noteq> CHR ''.'') (rev b)"
    using assms by (intro dropWhile_cong) auto
  show ?thesis
  proof (cases "CHR ''.'' \<in> set b")
    case True
    then have ne: "dropWhile (\<lambda>c. c \<noteq> CHR ''.'') (rev b) \<noteq> []" by (simp add: dropWhile_eq_Nil_conv)
    then have "hd (dropWhile (\<lambda>c. c \<noteq> CHR ''.'') (rev b)) = CHR ''.''"
      using hd_dropWhile[of "\<lambda>c. c \<noteq> CHR ''.''" "rev b"] by simp
    with ne True show ?thesis
      by (cases "dropWhile (\<lambda>c. c \<noteq> CHR ''.'') (rev b)") (simp_all add: Ext_def tw dw)
  next
    case False
    then have dn: "dropWhile (\<lambda>c. c \<noteq> CHR ''.'') (rev b) = []"
      by (auto simp: dropWhile_eq_Nil_conv)
    show ?thesis unfolding Ext_def dw dn using False by simp
  qed
qed

lemma spec_final_extension_removed_decomp:
  assumes "CHR ''.'' \<in> set b"
  shows "b = spec_final_extension_removed b @ CHR ''.'' # rev (takeWhile (\<lambda>c. c \<noteq> CHR ''.'') (rev b))"
proof -
  let ?d = "dropWhile (\<lambda>c. c \<noteq> CHR ''.'') (rev b)"
  from assms have ne: "?d \<noteq> []" by (simp add: dropWhile_eq_Nil_conv)
  then have "hd ?d = CHR ''.''"
    using hd_dropWhile[of "\<lambda>c. c \<noteq> CHR ''.''" "rev b"] by simp
  with ne have d: "?d = CHR ''.'' # tl ?d" by (cases ?d) auto
  have "b = rev ?d @ rev (takeWhile (\<lambda>c. c \<noteq> CHR ''.'') (rev b))"
    by (rule rev_split)
  also have "rev ?d = rev (tl ?d) @ [CHR ''.'']"
    by (subst d) simp
  finally have "b = rev (tl ?d) @ CHR ''.'' # rev (takeWhile (\<lambda>c. c \<noteq> CHR ''.'') (rev b))"
    by simp
  with assms show ?thesis by (simp add: spec_final_extension_removed_def)
qed

lemma removeExtension_eq: "removeExtension f = spec_final_extension_removed (Base f)"
proof (cases "Base f = ''/''")
  case True
  then show ?thesis by (simp add: removeExtension_def Ext_def spec_final_extension_removed_def)
next
  case False
  then have sf: "CHR ''/'' \<notin> set (Base f)" using Base_slash_free[of f] by simp
  show ?thesis
  proof (cases "CHR ''.'' \<in> set (Base f)")
    case True
    let ?e = "rev (takeWhile (\<lambda>c. c \<noteq> CHR ''.'') (rev (Base f)))"
    have d: "Base f = spec_final_extension_removed (Base f) @ CHR ''.'' # ?e"
      using spec_final_extension_removed_decomp[OF True] .
    have "take (length (Base f) - length (CHR ''.'' # ?e)) (Base f) = spec_final_extension_removed (Base f)"
      by (subst (1 2) d) simp
    with True sf show ?thesis by (simp add: removeExtension_def Ext_slash_free Let_def)
  next
    case False
    with sf show ?thesis by (simp add: removeExtension_def Ext_slash_free spec_final_extension_removed_def)
  qed
qed


lemma spec_final_extension_removed_length: "length (spec_final_extension_removed b) \<le> length b"
proof (cases "CHR ''.'' \<in> set b")
  case True
  from spec_final_extension_removed_decomp[OF True]
  have "length b = length (spec_final_extension_removed b @ CHR ''.'' # rev (takeWhile (\<lambda>c. c \<noteq> CHR ''.'') (rev b)))"
    by simp
  then show ?thesis by simp
next
  case False
  then show ?thesis by (simp add: spec_final_extension_removed_def)
qed

lemma spec_final_extension_removed_fixed: "spec_final_extension_removed b = b \<longleftrightarrow> CHR ''.'' \<notin> set b"
proof (cases "CHR ''.'' \<in> set b")
  case True
  from spec_final_extension_removed_decomp[OF True]
  have "length b = length (spec_final_extension_removed b @ CHR ''.'' # rev (takeWhile (\<lambda>c. c \<noteq> CHR ''.'') (rev b)))"
    by simp
  then have "length (spec_final_extension_removed b) < length b" by simp
  with True show ?thesis by auto
next
  case False
  then show ?thesis by (simp add: spec_final_extension_removed_def)
qed

lemma Base_length: "f \<noteq> [] \<Longrightarrow> length (Base f) \<le> length f"
proof -
  assume "f \<noteq> []"
  then obtain pre post where "f = pre @ Base f @ post" using Base_decomp by blast
  then have "length f = length pre + length (Base f) + length post"
    by (metis length_append add.assoc)
  then show ?thesis by simp
qed

lemma Base_same_length: "f \<noteq> [] \<Longrightarrow> length (Base f) = length f \<Longrightarrow> Base f = f"
proof -
  assume "f \<noteq> []" and l: "length (Base f) = length f"
  then obtain pre post where d: "f = pre @ Base f @ post" using Base_decomp by blast
  then have "length f = length pre + length (Base f) + length post"
    by (metis length_append add.assoc)
  with l have "pre = []" "post = []" by simp_all
  with d show ?thesis by simp
qed

lemma removeExtension_shorter:
  assumes "removeExtension f \<noteq> f"
  shows "length (removeExtension f) < length f"
proof (cases "f = []")
  case True
  then have "removeExtension f = f"
    by (simp add: removeExtension_eq Base_def spec_final_extension_removed_def)
  with assms show ?thesis by simp
next
  case False
  have le: "length (removeExtension f) \<le> length (Base f)"
    by (simp add: removeExtension_eq spec_final_extension_removed_length)
  show ?thesis
  proof (cases "length (Base f) = length f")
    case True
    with False have bf: "Base f = f" by (rule Base_same_length)
    with assms have "spec_final_extension_removed f \<noteq> f" by (simp add: removeExtension_eq)
    moreover have "length (spec_final_extension_removed f) \<le> length f" by (rule spec_final_extension_removed_length)
    moreover have "length (spec_final_extension_removed f) = length f \<Longrightarrow> spec_final_extension_removed f = f"
    proof (cases "CHR ''.'' \<in> set f")
      case True
      from spec_final_extension_removed_decomp[OF True]
      have "length f = length (spec_final_extension_removed f @ CHR ''.'' # rev (takeWhile (\<lambda>c. c \<noteq> CHR ''.'') (rev f)))"
        by simp
      then show "length (spec_final_extension_removed f) = length f \<Longrightarrow> spec_final_extension_removed f = f" by simp
    next
      case False
      then show "spec_final_extension_removed f = f" by (simp add: spec_final_extension_removed_def)
    qed
    ultimately have "length (spec_final_extension_removed f) < length f" by (cases "length (spec_final_extension_removed f) = length f") auto
    with bf show ?thesis by (simp add: removeExtension_eq)
  next
    case F: False
    with Base_length[OF False] le show ?thesis by simp
  qed
qed

lemma removeExtension_fixed:
  assumes "removeExtension f = f"
  shows "spec_all_extensions_removed (Base f) = f"
proof (cases "f = []")
  case True
  then show ?thesis by (simp add: Base_def spec_all_extensions_removed_def)
next
  case False
  have "length f = length (spec_final_extension_removed (Base f))" using assms by (simp add: removeExtension_eq)
  with spec_final_extension_removed_length[of "Base f"] Base_length[OF False]
  have "length (Base f) = length f" by simp
  with False have bf: "Base f = f" by (rule Base_same_length)
  with assms have "spec_final_extension_removed f = f" by (simp add: removeExtension_eq)
  then have "CHR ''.'' \<notin> set f" by (simp add: spec_final_extension_removed_fixed)
  then have "takeWhile (\<lambda>c. c \<noteq> CHR ''.'') f = f" by (auto intro: takeWhile_eq_all_conv[THEN iffD2])
  with bf show ?thesis by (simp add: spec_all_extensions_removed_def)
qed

lemma spec_all_extensions_removed_removeExtension:
  "spec_all_extensions_removed (Base (removeExtension f)) = spec_all_extensions_removed (Base f)"
proof (cases "Base f = ''/''")
  case True
  then show ?thesis by (simp add: removeExtension_eq spec_final_extension_removed_def Base_def)
next
  case False
  then have sf: "CHR ''/'' \<notin> set (Base f)" using Base_slash_free[of f] by simp
  let ?b = "Base f"
  let ?r = "spec_final_extension_removed ?b"
  show ?thesis
  proof (cases "CHR ''.'' \<in> set ?b")
    case False
    then have "?r = ?b" by (simp add: spec_final_extension_removed_def)
    with sf Base_nonempty[of f] show ?thesis by (simp add: removeExtension_eq Base_idem)
  next
    case True
    let ?e = "rev (takeWhile (\<lambda>c. c \<noteq> CHR ''.'') (rev ?b))"
    have d: "?b = ?r @ CHR ''.'' # ?e" using spec_final_extension_removed_decomp[OF True] .
    have rsf: "CHR ''/'' \<notin> set ?r"
    proof
      assume "CHR ''/'' \<in> set ?r"
      then have "CHR ''/'' \<in> set (?r @ CHR ''.'' # ?e)" by simp
      with d sf show False by simp
    qed
    have split: "takeWhile (\<lambda>c. c \<noteq> CHR ''.'') ?b
                 = takeWhile (\<lambda>c. c \<noteq> CHR ''.'') (?r @ CHR ''.'' # ?e)"
      using arg_cong[OF d, of "takeWhile (\<lambda>c. c \<noteq> CHR ''.'')"] .
    have tw: "takeWhile (\<lambda>c. c \<noteq> CHR ''.'') ?b = takeWhile (\<lambda>c. c \<noteq> CHR ''.'') ?r"
    proof (cases "CHR ''.'' \<in> set ?r")
      case True
      then have "takeWhile (\<lambda>c. c \<noteq> CHR ''.'') (?r @ CHR ''.'' # ?e) = takeWhile (\<lambda>c. c \<noteq> CHR ''.'') ?r"
        by (intro takeWhile_append1[of "CHR ''.''"]) auto
      with split show ?thesis by (rule trans)
    next
      case False
      then have "takeWhile (\<lambda>c. c \<noteq> CHR ''.'') (?r @ CHR ''.'' # ?e) = ?r @ takeWhile (\<lambda>c. c \<noteq> CHR ''.'') (CHR ''.'' # ?e)"
        by (intro takeWhile_append2) auto
      then have "takeWhile (\<lambda>c. c \<noteq> CHR ''.'') (?r @ CHR ''.'' # ?e) = ?r"
        by simp
      moreover from False have "takeWhile (\<lambda>c. c \<noteq> CHR ''.'') ?r = ?r"
        by (auto intro: takeWhile_eq_all_conv[THEN iffD2])
      ultimately have "takeWhile (\<lambda>c. c \<noteq> CHR ''.'') (?r @ CHR ''.'' # ?e)
                       = takeWhile (\<lambda>c. c \<noteq> CHR ''.'') ?r"
        by (rule trans[OF _ sym])
      with split show ?thesis by (rule trans)
    qed
    show ?thesis
    proof (cases "?r = []")
      case True
      with tw show ?thesis by (simp add: removeExtension_eq spec_all_extensions_removed_def Base_def)
    next
      case False
      with rsf have "Base ?r = ?r" by (simp add: Base_idem)
      with tw show ?thesis by (simp add: removeExtension_eq spec_all_extensions_removed_def)
    qed
  qed
qed

lemma removeExtensions_loop_result:
  "f1 \<noteq> f2 \<Longrightarrow> removeExtensions_loop f1 f2 = Some (spec_all_extensions_removed (Base f2))"
proof (induction "length f2" arbitrary: f1 f2 rule: less_induct)
  case less
  have step: "removeExtensions_loop f1 f2 = removeExtensions_loop f2 (removeExtension f2)"
    using less.prems by (subst removeExtensions_loop.simps) simp
  show ?case
  proof (cases "removeExtension f2 = f2")
    case True
    then have "removeExtensions_loop f2 (removeExtension f2) = Some f2"
      by (subst removeExtensions_loop.simps) simp
    with step True show ?thesis by (simp add: removeExtension_fixed)
  next
    case False
    then have "length (removeExtension f2) < length f2" by (rule removeExtension_shorter)
    moreover from False have "f2 \<noteq> removeExtension f2" by simp
    ultimately have "removeExtensions_loop f2 (removeExtension f2)
                     = Some (spec_all_extensions_removed (Base (removeExtension f2)))"
      by (rule less.hyps)
    with step show ?thesis by (simp add: spec_all_extensions_removed_removeExtension)
  qed
qed

lemma removeExtensions_loop_returns:
  "removeExtensions_loop f1 f2 = Some (if f1 = f2 then f2 else spec_all_extensions_removed (Base f2))"
proof (cases "f1 = f2")
  case True
  then show ?thesis by (subst removeExtensions_loop.simps) simp
next
  case False
  then show ?thesis by (simp add: removeExtensions_loop_result)
qed

lemma removeExtensions_eq: "removeExtensions f = Some (spec_all_extensions_removed (Base f))"
proof (cases "f = removeExtension f")
  case True
  then have "removeExtension f = f" by simp
  then have "spec_all_extensions_removed (Base f) = f" by (rule removeExtension_fixed)
  with True show ?thesis
    by (simp add: removeExtensions_def removeExtensions_loop_returns)
next
  case False
  then show ?thesis
    by (simp add: removeExtensions_def removeExtensions_loop_returns spec_all_extensions_removed_removeExtension)
qed


section \<open>Runs of the classifier\<close>

lemma fst_processLines_Cons:
  "fst (processLines (line # rest) g) = fst (processLines rest (fst (processLine line g)))"
  by (simp split: prod.splits)

lemma snd_processLines_Cons:
  "snd (processLines (line # rest) g) =
     (case snd (processLine line g) of None \<Rightarrow> [] | Some r \<Rightarrow> [r])
       @ snd (processLines rest (fst (processLine line g)))"
  by (simp split: prod.splits)

lemma fst_processLines_append:
  "fst (processLines (xs @ ys) g) = fst (processLines ys (fst (processLines xs g)))"
  by (induction xs arbitrary: g) (simp_all add: fst_processLines_Cons del: processLines.simps(2))

lemma snd_processLines_append:
  "snd (processLines (xs @ ys) g) =
     snd (processLines xs g) @ snd (processLines ys (fst (processLines xs g)))"
  by (induction xs arbitrary: g)
     (simp_all add: fst_processLines_Cons snd_processLines_Cons del: processLines.simps(2))

lemma processDirective_defaults:
  "defaultCodeOutput (processDirective d g) = defaultCodeOutput g"
  "defaultTextOutput (processDirective d g) = defaultTextOutput g"
  by (simp_all add: processDirective_def)

lemma processLine_defaults:
  "defaultCodeOutput (fst (processLine line g)) = defaultCodeOutput g"
  "defaultTextOutput (fst (processLine line g)) = defaultTextOutput g"
  by (simp_all add: processLine_def processDirective_defaults Let_def
        split: option.splits lineType.splits)

lemma processLines_defaults:
  "defaultCodeOutput (fst (processLines lines g)) = defaultCodeOutput g"
  "defaultTextOutput (fst (processLines lines g)) = defaultTextOutput g"
  by (induction lines arbitrary: g)
     (simp_all add: fst_processLines_Cons processLine_defaults del: processLines.simps(2))

lemma processLine_directive:
  "parseDirective line = Some d \<Longrightarrow> processLine line g = (processDirective d g, None)"
  by (simp add: processLine_def)

text \<open>
  C3. Resolving a directive: the payload \<open>!--\<close> sets the state to \<open>Example\<close> and \<open>#--\<close>
  sets it to \<open>Boilerplate\<close>, both leaving the targets alone; the empty payload sets the
  state to \<open>Code\<close> and resets \<open>currentTarget\<close> to \<open>defaultCodeOutput\<close>; any other payload
  sets the state to \<open>Code\<close> and \<open>currentTarget\<close> to the payload. Every payload other than
  \<open>!--\<close> and \<open>#--\<close> gives state \<open>Code\<close> whatever the state was. In a sequence of lines,
  after a directive line with a file name \<open>currentTarget\<close> is that name, and after a later
  empty directive it is \<open>defaultCodeOutput\<close> again, whatever lines lie before and between.
\<close>

theorem processDirective_resolves:
  "processDirective ''!--'' g = g\<lparr>state := Example_state\<rparr> \<and>
   processDirective ''#--'' g = g\<lparr>state := Boilerplate_state\<rparr> \<and>
   processDirective [] g = g\<lparr>state := Code_state, currentTarget := defaultCodeOutput g\<rparr> \<and>
   (d \<noteq> ''!--'' \<and> d \<noteq> ''#--'' \<and> d \<noteq> [] \<longrightarrow>
      processDirective d g = g\<lparr>state := Code_state, currentTarget := d\<rparr>) \<and>
   (d \<noteq> ''!--'' \<and> d \<noteq> ''#--'' \<longrightarrow> state (processDirective d g) = Code_state) \<and>
   (parseDirective line1 = Some d \<and> d \<noteq> ''!--'' \<and> d \<noteq> ''#--'' \<and> d \<noteq> [] \<longrightarrow>
      currentTarget (fst (processLines (pre @ [line1]) g)) = d) \<and>
   (parseDirective line2 = Some [] \<longrightarrow>
      currentTarget (fst (processLines (pre @ line1 # mid @ [line2]) g)) = defaultCodeOutput g)"
proof -
  have seq1: "currentTarget (fst (processLines (pre @ [line1]) g)) = d"
    if "parseDirective line1 = Some d" "d \<noteq> ''!--''" "d \<noteq> ''#--''" "d \<noteq> []"
    using that
    by (simp add: fst_processLines_append fst_processLines_Cons processLine_directive
          processDirective_def del: processLines.simps(2))
  have seq2: "currentTarget (fst (processLines (pre @ line1 # mid @ [line2]) g)) = defaultCodeOutput g"
    if "parseDirective line2 = Some []"
  proof -
    have "pre @ line1 # mid @ [line2] = (pre @ line1 # mid) @ [line2]" by simp
    then show ?thesis using that
    by (simp only: fst_processLines_append)
       (simp add: fst_processLines_Cons processLine_directive
          processDirective_def processLines_defaults processLine_defaults del: processLines.simps(2))
  qed
  show ?thesis using seq1 seq2 by (simp add: processDirective_def)
qed


theorem processDirective_resolves_witness:
  "currentTarget (fst (processLines
      ([''# Title''] @ [CHR 0x09 # ''<<custom.ext>>''])
      (initial_globals\<lparr>defaultCodeOutput := ''foo.cpp'', currentTarget := ''foo.cpp''\<rparr>)))
     = ''custom.ext'' \<and>
   currentTarget (fst (processLines
      ([''# Title''] @ (CHR 0x09 # ''<<custom.ext>>'') # [CHR 0x09 # ''int x;''] @ [''    <<>>''])
      (initial_globals\<lparr>defaultCodeOutput := ''foo.cpp'', currentTarget := ''foo.cpp''\<rparr>)))
     = ''foo.cpp'' \<and>
   state (processDirective ''custom.ext'' (initial_globals\<lparr>state := Example_state\<rparr>)) = Code_state"
proof -
  have p1: "parseDirective (CHR 0x09 # ''<<custom.ext>>'') = Some ''custom.ext''"
    by code_simp
  have p2: "parseDirective ''    <<>>'' = Some []"
    by code_simp
  show ?thesis
    using processDirective_resolves [of "initial_globals\<lparr>defaultCodeOutput := ''foo.cpp'', currentTarget := ''foo.cpp''\<rparr>"
        "''custom.ext''" "CHR 0x09 # ''<<custom.ext>>''" "[''# Title'']" "''    <<>>''" "[CHR 0x09 # ''int x;'']"]
      processDirective_resolves [of "initial_globals\<lparr>state := Example_state\<rparr>" "''custom.ext''"]
      p1 p2
    by simp
qed

text \<open>
  C5. A blank line that is not a directive, processed in state \<open>Code\<close>, \<open>Boilerplate\<close>
  or \<open>Example\<close>, leaves the state (and all variables) unchanged and is emitted like the
  run around it: in \<open>Code\<close> and \<open>Boilerplate\<close> as a code record for \<open>currentTarget\<close>
  (without text in \<open>Boilerplate\<close>), in \<open>Example\<close> as a record with text only.
\<close>

theorem blank_line_continues_run:
  assumes "TrimSpace line = []" and "parseDirective line = None" and "state g \<noteq> Text_state"
  shows "fst (processLine line g) = g \<and>
         snd (processLine line g) =
           Some (case state g of
                   Example_state \<Rightarrow>
                     \<lparr>Code = [], CodeTarget = [], Text = line, TextTarget = defaultTextOutput g\<rparr>
                 | Boilerplate_state \<Rightarrow>
                     \<lparr>Code = fst (unindent line), CodeTarget = currentTarget g,
                      Text = [], TextTarget = []\<rparr>
                 | _ \<Rightarrow>
                     \<lparr>Code = fst (unindent line), CodeTarget = currentTarget g,
                      Text = line, TextTarget = defaultTextOutput g\<rparr>)"
  using assms by (cases "state g") (simp_all add: processLine_def)

text \<open>
  C8. A line that is not indented and not blank is not a directive, and after
  \<open>processLine\<close> the state is \<open>Text\<close>, whatever it was before.
\<close>

theorem unindented_text_ends_run:
  assumes "\<not> snd (unindent line)" and "TrimSpace line \<noteq> []"
  shows "parseDirective line = None \<and> state (fst (processLine line g)) = Text_state"
proof -
  from assms(1) have nd: "parseDirective line = None"
    by (cases "unindent line") (simp add: parseDirective_def)
  show ?thesis using assms nd
    by (cases "state g") (simp_all add: processLine_def)
qed

text \<open>
  C7. Processing a line that is not a directive, and resolving \<open>!--\<close> or \<open>#--\<close>, leaves
  \<open>currentTarget\<close> unchanged; if \<open>processLine\<close> changes \<open>currentTarget\<close>, the line is a
  directive with a payload other than \<open>!--\<close> and \<open>#--\<close>; \<open>defaultCodeOutput\<close> and
  \<open>defaultTextOutput\<close> are the same after any line and after any sequence of lines.
\<close>

theorem currentTarget_frame:
  "(parseDirective line = None \<longrightarrow> currentTarget (fst (processLine line g)) = currentTarget g) \<and>
   currentTarget (processDirective ''!--'' g) = currentTarget g \<and>
   currentTarget (processDirective ''#--'' g) = currentTarget g \<and>
   (currentTarget (fst (processLine line g)) \<noteq> currentTarget g \<longrightarrow>
      (\<exists>d. parseDirective line = Some d \<and> d \<noteq> ''!--'' \<and> d \<noteq> ''#--'')) \<and>
   defaultCodeOutput (fst (processLine line g)) = defaultCodeOutput g \<and>
   defaultTextOutput (fst (processLine line g)) = defaultTextOutput g \<and>
   defaultCodeOutput (fst (processLines lines g)) = defaultCodeOutput g \<and>
   defaultTextOutput (fst (processLines lines g)) = defaultTextOutput g"
proof -
  have keep: "currentTarget (fst (processLine line g)) = currentTarget g"
    if "parseDirective line = None"
    using that by (cases "state g") (simp_all add: processLine_def Let_def)
  have only: "\<exists>d. parseDirective line = Some d \<and> d \<noteq> ''!--'' \<and> d \<noteq> ''#--''"
    if ch: "currentTarget (fst (processLine line g)) \<noteq> currentTarget g"
  proof (cases "parseDirective line")
    case None
    with keep ch show ?thesis by simp
  next
    case (Some d)
    with ch have "currentTarget (processDirective d g) \<noteq> currentTarget g"
      by (simp add: processLine_directive)
    then have "d \<noteq> ''!--'' \<and> d \<noteq> ''#--''"
      by (auto simp: processDirective_def)
    with Some show ?thesis by simp
  qed
  show ?thesis
    using keep only
    by (simp add: processLine_defaults processLines_defaults processDirective_def)
qed



theorem blank_line_continues_run_witness:
  "TrimSpace [CHR 0x0A] = [] \<and> parseDirective [CHR 0x0A] = None \<and>
   fst (processLine [CHR 0x0A]
          \<lparr>state = Boilerplate_state, defaultCodeOutput = ''foo.cpp'',
           defaultTextOutput = ''foo.md'', currentTarget = ''foo.cpp''\<rparr>)
     = \<lparr>state = Boilerplate_state, defaultCodeOutput = ''foo.cpp'',
        defaultTextOutput = ''foo.md'', currentTarget = ''foo.cpp''\<rparr> \<and>
   snd (processLine [CHR 0x0A]
          \<lparr>state = Boilerplate_state, defaultCodeOutput = ''foo.cpp'',
           defaultTextOutput = ''foo.md'', currentTarget = ''foo.cpp''\<rparr>)
     = Some \<lparr>Code = [CHR 0x0A], CodeTarget = ''foo.cpp'', Text = [], TextTarget = []\<rparr>"
proof -
  have blank: "TrimSpace [CHR 0x0A] = []"
    by code_simp
  have nodir: "parseDirective [CHR 0x0A] = None"
    by code_simp
  have unind: "unindent [CHR 0x0A] = ([CHR 0x0A], False)"
    by code_simp
  show ?thesis
    using blank_line_continues_run [OF blank nodir,
        of "\<lparr>state = Boilerplate_state, defaultCodeOutput = ''foo.cpp'',
             defaultTextOutput = ''foo.md'', currentTarget = ''foo.cpp''\<rparr>"]
      blank nodir unind
    by simp
qed

theorem unindented_text_ends_run_witness:
  "\<not> snd (unindent ''More text.'') \<and> TrimSpace ''More text.'' \<noteq> [] \<and>
   parseDirective ''More text.'' = None \<and>
   state (fst (processLine ''More text.''
            \<lparr>state = Example_state, defaultCodeOutput = ''foo.cpp'',
             defaultTextOutput = ''foo.md'', currentTarget = ''foo.cpp''\<rparr>)) = Text_state"
proof -
  have unind: "\<not> snd (unindent ''More text.'')"
    by code_simp
  have nonblank: "TrimSpace ''More text.'' \<noteq> []"
    by code_simp
  show ?thesis
    using unindented_text_ends_run [OF unind nonblank,
        of "\<lparr>state = Example_state, defaultCodeOutput = ''foo.cpp'',
             defaultTextOutput = ''foo.md'', currentTarget = ''foo.cpp''\<rparr>"]
      unind nonblank
    by simp
qed

theorem currentTarget_frame_witness:
  "parseDirective ''    int x;'' = None \<and>
   currentTarget (fst (processLine ''    int x;''
      \<lparr>state = Text_state, defaultCodeOutput = ''foo.cpp'',
       defaultTextOutput = ''foo.md'', currentTarget = ''foo.cpp''\<rparr>)) = ''foo.cpp'' \<and>
   currentTarget (fst (processLine ''    <<a.c>>''
      \<lparr>state = Text_state, defaultCodeOutput = ''foo.cpp'',
       defaultTextOutput = ''foo.md'', currentTarget = ''foo.cpp''\<rparr>)) \<noteq> ''foo.cpp'' \<and>
   (\<exists>d. parseDirective ''    <<a.c>>'' = Some d \<and> d \<noteq> ''!--'' \<and> d \<noteq> ''#--'')"
proof -
  have nodir: "parseDirective ''    int x;'' = None"
    by code_simp
  have dir: "parseDirective ''    <<a.c>>'' = Some ''a.c''"
    by code_simp
  have changed: "currentTarget (fst (processLine ''    <<a.c>>''
      \<lparr>state = Text_state, defaultCodeOutput = ''foo.cpp'',
       defaultTextOutput = ''foo.md'', currentTarget = ''foo.cpp''\<rparr>)) \<noteq> ''foo.cpp''"
    by (simp add: processLine_def dir processDirective_def)
  show ?thesis
    using currentTarget_frame [of "''    int x;''"
        "\<lparr>state = Text_state, defaultCodeOutput = ''foo.cpp'',
          defaultTextOutput = ''foo.md'', currentTarget = ''foo.cpp''\<rparr>" "[]"]
      currentTarget_frame [of "''    <<a.c>>''"
        "\<lparr>state = Text_state, defaultCodeOutput = ''foo.cpp'',
          defaultTextOutput = ''foo.md'', currentTarget = ''foo.cpp''\<rparr>" "[]"]
      nodir changed
    by simp
qed

lemma removeExtension_of_stem:
  "removeExtension (spec_all_extensions_removed (Base f)) = spec_all_extensions_removed (Base f)"
proof (cases "Base f = ''/''")
  case True
  then show ?thesis
    by (simp add: spec_all_extensions_removed_def removeExtension_eq Base_def
          spec_final_extension_removed_def)
next
  case False
  then have sf: "CHR ''/'' \<notin> set (Base f)" using Base_slash_free[of f] by simp
  let ?y = "spec_all_extensions_removed (Base f)"
  have nodot: "CHR ''.'' \<notin> set ?y"
    by (auto simp: spec_all_extensions_removed_def dest: set_takeWhileD)
  have noslash: "CHR ''/'' \<notin> set ?y"
    using sf by (auto simp: spec_all_extensions_removed_def dest: set_takeWhileD)
  show ?thesis
  proof (cases "?y = []")
    case True
    then show ?thesis
      by (simp add: removeExtension_eq Base_def spec_final_extension_removed_def)
  next
    case False
    with noslash have "Base ?y = ?y" by (simp add: Base_idem)
    with nodot show ?thesis
      by (simp add: removeExtension_eq spec_final_extension_removed_def)
  qed
qed

text \<open>
  C10. The loop of \<open>removeExtensions\<close> ends for every pair of values of its variables,
  so \<open>removeExtensions\<close> returns for every file name; what it returns is a fixed point of
  \<open>removeExtension\<close>. The empty name, the name \<open>.\<close> and a name with a leading dot
  all give the empty string.
\<close>

theorem removeExtensions_terminates:
  "(\<exists>y. removeExtensions_loop f1 f2 = Some y) \<and>
   (\<exists>y. removeExtensions filename = Some y \<and> removeExtension y = y) \<and>
   removeExtensions [] = Some [] \<and>
   removeExtensions ''.'' = Some [] \<and>
   removeExtensions ''.bashrc'' = Some []"
proof -
  have "removeExtension (spec_all_extensions_removed (Base filename))
        = spec_all_extensions_removed (Base filename)"
    by (rule removeExtension_of_stem)
  then have total: "\<exists>y. removeExtensions filename = Some y \<and> removeExtension y = y"
    by (simp add: removeExtensions_eq)
  have e1: "removeExtensions [] = Some []"
    by (simp add: removeExtensions_eq Base_def spec_all_extensions_removed_def)
  have e2: "removeExtensions ''.'' = Some []"
    by (simp add: removeExtensions_eq Base_def spec_all_extensions_removed_def)
  have e3: "removeExtensions ''.bashrc'' = Some []"
    by (simp add: removeExtensions_eq Base_def spec_all_extensions_removed_def)
  show ?thesis
    using total e1 e2 e3 by (simp add: removeExtensions_loop_returns)
qed

theorem removeExtensions_terminates_witness:
  "removeExtensions ''a.b/foo.cpp.md'' = Some ''foo'' \<and> removeExtension ''foo'' = ''foo''"
proof -
  have r: "removeExtensions ''a.b/foo.cpp.md'' = Some ''foo''"
    by (simp add: removeExtensions_def removeExtensions_loop.simps removeExtension_def
          Base_def Ext_def)
  from removeExtensions_terminates [of "[]" "[]" "''a.b/foo.cpp.md''"]
  obtain y where "removeExtensions ''a.b/foo.cpp.md'' = Some y" and "removeExtension y = y"
    by blast
  with r show ?thesis by simp
qed

section \<open>The directive parser\<close>

lemma rxSpace_not_gt: "\<not> rxSpace CHR ''>''"
  by (simp add: rxSpace_def)

lemma FindStringSubmatch_sound:
  assumes "rxDirective_FindStringSubmatch s = Some c"
  shows "rxDirective_matches s c"
proof -
  let ?body = "drop 2 s"
  let ?t = "rev (dropWhile rxSpace (rev ?body))"
  let ?w = "rev (takeWhile rxSpace (rev ?body))"
  from assms have pre: "prefix ''<<'' s"
    by (simp add: rxDirective_FindStringSubmatch_def split: if_splits)
  with assms have suf: "suffix ''>>'' ?t" and nl: "CHR 0x0A \<notin> set c"
    and c: "c = take (length ?t - 2) ?t"
    by (auto simp: rxDirective_FindStringSubmatch_def Let_def split: if_splits)
  from pre obtain zs where "s = ''<<'' @ zs" by (auto simp: prefix_def)
  then have s: "s = ''<<'' @ ?body" by simp
  have body: "?body = ?t @ ?w" by (rule rev_split)
  from suf obtain ys where t: "?t = ys @ ''>>''" by (auto simp: suffix_def)
  then have "take (length ?t - 2) ?t = ys" by simp
  with c have "ys = c" by simp
  with t have t': "?t = c @ ''>>''" by simp
  have w: "\<forall>x \<in> set ?w. rxSpace x" by (auto dest: set_takeWhileD)
  have "s = ''<<'' @ c @ ''>>'' @ ?w"
    by (subst s, subst body, subst t') simp
  with nl w show ?thesis unfolding rxDirective_matches_def by blast
qed

lemma FindStringSubmatch_complete:
  assumes "rxDirective_matches s c"
  shows "rxDirective_FindStringSubmatch s = Some c"
proof -
  from assms obtain w where s: "s = ''<<'' @ c @ ''>>'' @ w" and nl: "CHR 0x0A \<notin> set c"
    and w: "\<forall>x \<in> set w. rxSpace x"
    unfolding rxDirective_matches_def by blast
  have body: "drop 2 s = c @ ''>>'' @ w" by (simp add: s)
  have "dropWhile rxSpace (rev w @ CHR ''>'' # CHR ''>'' # rev c)
        = dropWhile rxSpace (CHR ''>'' # CHR ''>'' # rev c)"
    using w by (intro dropWhile_append2) simp
  then have "dropWhile rxSpace (rev (drop 2 s)) = CHR ''>'' # CHR ''>'' # rev c"
    by (simp add: body rxSpace_not_gt)
  then have t: "rev (dropWhile rxSpace (rev (drop 2 s))) = c @ ''>>''" by simp
  have pre: "prefix ''<<'' s" by (simp add: s)
  show ?thesis
    unfolding rxDirective_FindStringSubmatch_def Let_def t
    using pre nl by (simp add: suffix_def)
qed

lemma FindStringSubmatch_iff:
  "rxDirective_FindStringSubmatch s = Some c \<longleftrightarrow> rxDirective_matches s c"
  using FindStringSubmatch_sound FindStringSubmatch_complete by blast

lemma unindent_tab: "unindent (CHR 0x09 # rest) = (rest, True)"
  by (simp add: unindent_def)

lemma unindent_spaces: "unindent (''    '' @ rest) = (rest, True)"
  by (simp add: unindent_def)

lemma unindent_indented:
  "snd (unindent line) \<longleftrightarrow> prefix [CHR 0x09] line \<or> prefix ''    '' line"
  by (simp add: unindent_def)

lemma unindent_decomp:
  assumes "snd (unindent line)"
  shows "line = [CHR 0x09] @ fst (unindent line) \<or> line = ''    '' @ fst (unindent line)"
proof (cases "prefix [CHR 0x09] line")
  case True
  then obtain zs where "line = [CHR 0x09] @ zs" by (auto simp: prefix_def)
  then show ?thesis by (simp add: unindent_def)
next
  case False
  with assms have "prefix ''    '' line" by (simp add: unindent_indented)
  then obtain zs where "line = ''    '' @ zs" by (auto simp: prefix_def)
  then show ?thesis by (simp add: unindent_def)
qed

lemma parseDirective_unfold:
  "parseDirective line =
     (if snd (unindent line)
      then map_option TrimSpace (rxDirective_FindStringSubmatch (fst (unindent line)))
      else None)"
  by (cases "unindent line")
     (simp add: parseDirective_def split: option.splits)

text \<open>
  C4. \<open>parseDirective\<close> accepts a line with payload \<open>p\<close> exactly when the line is one
  tab or four spaces, then \<open><<\<close>, a group without newline, \<open>>>\<close> and white space to the
  end, and \<open>p\<close> is the group with \<open>TrimSpace\<close> applied (the empty string included). A
  line that starts with neither a tab nor four spaces is not a directive, and neither is
  one with a fifth space in front of \<open><<\<close>: a single indent is removed. The parser is a
  function of the line alone; it reads and changes no variable.
\<close>

theorem parseDirective_characterisation:
  "(parseDirective line = Some p \<longleftrightarrow>
      (\<exists>indent c w. (indent = [CHR 0x09] \<or> indent = ''    '') \<and>
         line = indent @ ''<<'' @ c @ ''>>'' @ w \<and>
         CHR 0x0A \<notin> set c \<and> (\<forall>x \<in> set w. rxSpace x) \<and> p = TrimSpace c)) \<and>
   (\<not> prefix [CHR 0x09] line \<and> \<not> prefix ''    '' line \<longrightarrow> parseDirective line = None) \<and>
   parseDirective (''     '' @ rest) = None"
proof -
  have fwd: "\<exists>indent c w. (indent = [CHR 0x09] \<or> indent = ''    '') \<and>
         line = indent @ ''<<'' @ c @ ''>>'' @ w \<and>
         CHR 0x0A \<notin> set c \<and> (\<forall>x \<in> set w. rxSpace x) \<and> p = TrimSpace c"
    if "parseDirective line = Some p"
  proof -
    from that have ind: "snd (unindent line)"
      by (simp add: parseDirective_unfold split: if_splits)
    with that obtain c where c: "rxDirective_FindStringSubmatch (fst (unindent line)) = Some c"
      and p: "p = TrimSpace c"
      by (auto simp: parseDirective_unfold)
    from c have "rxDirective_matches (fst (unindent line)) c" by (rule FindStringSubmatch_sound)
    then obtain w where rest: "fst (unindent line) = ''<<'' @ c @ ''>>'' @ w"
      and nl: "CHR 0x0A \<notin> set c" and w: "\<forall>x \<in> set w. rxSpace x"
      unfolding rxDirective_matches_def by blast
    from unindent_decomp[OF ind]
    have "line = [CHR 0x09] @ ''<<'' @ c @ ''>>'' @ w \<or> line = ''    '' @ ''<<'' @ c @ ''>>'' @ w"
      unfolding rest .
    with nl w p show ?thesis by blast
  qed
  have bwd: "parseDirective line = Some p"
    if "\<exists>indent c w. (indent = [CHR 0x09] \<or> indent = ''    '') \<and>
         line = indent @ ''<<'' @ c @ ''>>'' @ w \<and>
         CHR 0x0A \<notin> set c \<and> (\<forall>x \<in> set w. rxSpace x) \<and> p = TrimSpace c"
  proof -
    from that obtain indent c w where i: "indent = [CHR 0x09] \<or> indent = ''    ''"
      and l: "line = indent @ ''<<'' @ c @ ''>>'' @ w"
      and nl: "CHR 0x0A \<notin> set c" and w: "\<forall>x \<in> set w. rxSpace x" and p: "p = TrimSpace c"
      by blast
    from nl w have m: "rxDirective_matches (''<<'' @ c @ ''>>'' @ w) c"
      unfolding rxDirective_matches_def by blast
    then have f: "rxDirective_FindStringSubmatch (''<<'' @ c @ ''>>'' @ w) = Some c"
      by (rule FindStringSubmatch_complete)
    from i l have "unindent line = (''<<'' @ c @ ''>>'' @ w, True)"
      using unindent_tab[of "''<<'' @ c @ ''>>'' @ w"] unindent_spaces[of "''<<'' @ c @ ''>>'' @ w"]
      by auto
    with f p show ?thesis by (simp add: parseDirective_unfold)
  qed
  have none: "parseDirective line = None"
    if "\<not> prefix [CHR 0x09] line \<and> \<not> prefix ''    '' line"
    using that by (simp add: parseDirective_unfold unindent_indented)
  have "unindent (''     '' @ rest) = (CHR '' '' # rest, True)"
    by (simp add: unindent_def)
  then have five: "parseDirective (''     '' @ rest) = None"
    by (simp add: parseDirective_unfold rxDirective_FindStringSubmatch_def)
  from fwd bwd none five show ?thesis by blast
qed

theorem parseDirective_characterisation_witness:
  "parseDirective (''    << foo.c >>  '' @ [CHR 0x0A]) = Some ''foo.c'' \<and>
   TrimSpace '' foo.c '' = ''foo.c'' \<and>
   \<not> prefix [CHR 0x09] ''<<foo.c>>'' \<and> \<not> prefix ''    '' ''<<foo.c>>'' \<and>
   parseDirective ''<<foo.c>>'' = None"
proof -
  have t: "TrimSpace '' foo.c '' = ''foo.c''"
    by code_simp
  have n: "\<not> prefix [CHR 0x09] ''<<foo.c>>'' \<and> \<not> prefix ''    '' ''<<foo.c>>''"
    by simp
  have shape: "\<exists>indent c w. (indent = [CHR 0x09] \<or> indent = ''    '') \<and>
         ''    << foo.c >>  '' @ [CHR 0x0A] = indent @ ''<<'' @ c @ ''>>'' @ w \<and>
         CHR 0x0A \<notin> set c \<and> (\<forall>x \<in> set w. rxSpace x) \<and> ''foo.c'' = TrimSpace c"
    by (rule exI[of _ "''    ''"], rule exI[of _ "'' foo.c ''"], rule exI[of _ "''  '' @ [CHR 0x0A]"])
       (simp add: t rxSpace_def)
  from parseDirective_characterisation [of "''    << foo.c >>  '' @ [CHR 0x0A]" "''foo.c''" "[]"]
  have "parseDirective (''    << foo.c >>  '' @ [CHR 0x0A]) = Some ''foo.c'' \<longleftrightarrow>
      (\<exists>indent c w. (indent = [CHR 0x09] \<or> indent = ''    '') \<and>
         ''    << foo.c >>  '' @ [CHR 0x0A] = indent @ ''<<'' @ c @ ''>>'' @ w \<and>
         CHR 0x0A \<notin> set c \<and> (\<forall>x \<in> set w. rxSpace x) \<and> ''foo.c'' = TrimSpace c)"
    by (rule conjunct1)
  with shape have p: "parseDirective (''    << foo.c >>  '' @ [CHR 0x0A]) = Some ''foo.c''"
    by (rule iffD2[rotated])
  from parseDirective_characterisation [of "''<<foo.c>>''" "[]" "[]"]
  have "\<not> prefix [CHR 0x09] ''<<foo.c>>'' \<and> \<not> prefix ''    '' ''<<foo.c>>''
        \<longrightarrow> parseDirective ''<<foo.c>>'' = None"
    by (rule conjunct1[OF conjunct2])
  with n have "parseDirective ''<<foo.c>>'' = None"
    by (rule mp[rotated])
  with p t n show ?thesis by (intro conjI) (rule TrueI | assumption | elim conjE)+
qed

section \<open>One record for each line that is not a directive\<close>

lemma processLine_sent:
  "snd (processLine line g) = None \<longleftrightarrow> isDirective line"
  by (cases "parseDirective line"; cases "state g")
     (simp_all add: processLine_def isDirective_def Let_def)

lemma processLines_count:
  "length (snd (processLines lines g)) + length (filter isDirective lines) = length lines"
proof (induction lines arbitrary: g)
  case Nil
  show ?case by simp
next
  case (Cons line rest)
  have "length (case snd (processLine line g) of None \<Rightarrow> [] | Some r \<Rightarrow> [r])
        + (if isDirective line then 1 else 0) = 1"
    using processLine_sent[of line g] by (cases "snd (processLine line g)") auto
  with Cons.IH[of "fst (processLine line g)"] show ?case
    by (cases "isDirective line")
       (simp_all add: snd_processLines_Cons del: processLines.simps(2))
qed

lemma processLines_records:
  "list_all2 (\<lambda>r line. \<exists>gi. snd (processLine line gi) = Some r)
     (snd (processLines lines g)) (withoutDirectives lines)"
proof (induction lines arbitrary: g)
  case Nil
  show ?case by (simp add: withoutDirectives_def)
next
  case (Cons line rest)
  from Cons.IH[of "fst (processLine line g)"]
  have ih: "list_all2 (\<lambda>r line. \<exists>gi. snd (processLine line gi) = Some r)
              (snd (processLines rest (fst (processLine line g)))) (withoutDirectives rest)" .
  show ?case
  proof (cases "snd (processLine line g)")
    case None
    then have "isDirective line" by (simp add: processLine_sent)
    with None ih show ?thesis
      by (simp add: snd_processLines_Cons withoutDirectives_def del: processLines.simps(2))
  next
    case (Some r)
    then have "\<not> isDirective line" using processLine_sent[of line g] by simp
    moreover from Some have "\<exists>gi. snd (processLine line gi) = Some r" by blast
    ultimately show ?thesis using Some ih
      by (simp add: snd_processLines_Cons withoutDirectives_def del: processLines.simps(2))
  qed
qed

lemma ProcessFile_defaults_eq:
  "ProcessFile_defaults filename g =
     Some (g\<lparr>defaultCodeOutput := removeExtension filename,
             defaultTextOutput := spec_all_extensions_removed (Base filename) @ ''.md'',
             currentTarget := removeExtension filename\<rparr>)"
  by (simp add: ProcessFile_defaults_def removeExtensions_eq)

lemma ProcessFile_eq:
  "ProcessFile filename (Some content) g =
     (case ProcessFile_defaults filename g of
        None \<Rightarrow> None
      | Some g1 \<Rightarrow> Some (fst (processLines (readLines content) g1),
                        Inr (snd (processLines (readLines content) g1))))"
proof (cases "ProcessFile_defaults filename g")
  case None
  then show ?thesis by (simp add: ProcessFile_def)
next
  case (Some g1)
  then show ?thesis
    by (cases "processLines (readLines content) g1") (simp add: ProcessFile_def)
qed

text \<open>
  C2. \<open>processLine\<close> sends no record for a directive line and exactly one for any other
  line. So the records of a sequence of lines are, in order, records of its lines that are
  not directives, and their number is the number of lines minus the number of directive
  lines. \<open>ProcessFile\<close> returns for every document, with that many records for the lines
  it reads (\<open>readLines\<close>: the last, unterminated line is one of them, also when empty).
\<close>

theorem one_record_per_text_line:
  "(snd (processLine line g) = None \<longleftrightarrow> isDirective line) \<and>
   list_all2 (\<lambda>r line. \<exists>gi. snd (processLine line gi) = Some r)
     (snd (processLines lines g)) (withoutDirectives lines) \<and>
   length (snd (processLines lines g)) = length lines - length (filter isDirective lines) \<and>
   (\<exists>g' out. ProcessFile filename (Some content) g = Some (g', Inr out) \<and>
      length out = length (readLines content) - length (filter isDirective (readLines content)))"
proof -
  have len: "length (snd (processLines ls h)) = length ls - length (filter isDirective ls)"
    for ls h
    using processLines_count[of ls h] by simp
  have pf: "\<exists>g' out. ProcessFile filename (Some content) g = Some (g', Inr out) \<and>
      length out = length (readLines content) - length (filter isDirective (readLines content))"
    unfolding ProcessFile_eq ProcessFile_defaults_eq by (simp add: len)
  from processLine_sent processLines_records len pf show ?thesis
    by (intro conjI)
qed

theorem one_record_per_text_line_witness:
  "length (snd (processLines
      [''# Title'' @ [CHR 0x0A], CHR 0x09 # ''<<main.c>>'' @ [CHR 0x0A], CHR 0x09 # ''int x;'']
      initial_globals)) = 2 \<and>
   isDirective (CHR 0x09 # ''<<main.c>>'' @ [CHR 0x0A]) \<and>
   snd (processLine (CHR 0x09 # ''<<main.c>>'' @ [CHR 0x0A]) initial_globals) = None"
proof -
  have d1: "\<not> isDirective (''# Title'' @ [CHR 0x0A])"
    unfolding isDirective_def by code_simp
  have d2: "isDirective (CHR 0x09 # ''<<main.c>>'' @ [CHR 0x0A])"
    unfolding isDirective_def by code_simp
  have d3: "\<not> isDirective (CHR 0x09 # ''int x;'')"
    unfolding isDirective_def by code_simp
  show ?thesis
    using one_record_per_text_line [of "CHR 0x09 # ''<<main.c>>'' @ [CHR 0x0A]" initial_globals
        "[''# Title'' @ [CHR 0x0A], CHR 0x09 # ''<<main.c>>'' @ [CHR 0x0A], CHR 0x09 # ''int x;'']"
        "[]" "[]"]
      d1 d2 d3
    by simp
qed

section \<open>The documentation stream\<close>

lemma concat_readLines: "concat (readLines input) = input"
proof (induction input rule: readLines.induct)
  case (1 input)
  show ?case
  proof (cases "dropWhile (\<lambda>c. c \<noteq> CHR 0x0A) input")
    case Nil
    then have "ReadString input = (input, [], True)"
      by (simp only: ReadString_def list.case)
    then show ?thesis
      by (subst readLines.simps) simp
  next
    case (Cons nl rest)
    then have rs: "ReadString input = (takeWhile (\<lambda>c. c \<noteq> CHR 0x0A) input @ [nl], rest, False)"
      by (simp only: ReadString_def list.case)
    have "concat (readLines (fst (snd (ReadString input)))) = fst (snd (ReadString input))"
      by (rule "1.IH"[OF refl refl refl]) (simp add: rs)
    then have ih: "concat (readLines rest) = rest"
      by (simp add: rs)
    have "input = takeWhile (\<lambda>c. c \<noteq> CHR 0x0A) input @ dropWhile (\<lambda>c. c \<noteq> CHR 0x0A) input"
      by simp
    then have split: "input = (takeWhile (\<lambda>c. c \<noteq> CHR 0x0A) input @ [nl]) @ rest"
      by (simp only: Cons append_assoc append_Cons append_Nil)
    have "concat (readLines input) = (takeWhile (\<lambda>c. c \<noteq> CHR 0x0A) input @ [nl]) @ rest"
      by (subst readLines.simps) (simp add: rs ih)
    with split show ?thesis by simp
  qed
qed

lemma weave_append: "weave (xs @ ys) = weave xs @ weave ys"
  by (simp add: weave_def)

lemma weave_processLine:
  assumes "defaultTextOutput g \<noteq> []"
  shows "weave (case snd (processLine line g) of None \<Rightarrow> [] | Some r \<Rightarrow> [r]) =
         concat (if isDirective line
                    \<or> (state g = Boilerplate_state \<and> (snd (unindent line) \<or> TrimSpace line = []))
                 then [] else [line])"
proof (cases "parseDirective line")
  case (Some d)
  then show ?thesis
    by (simp add: processLine_directive isDirective_def weave_def)
next
  case None
  then show ?thesis using assms
    by (cases "state g") (simp_all add: processLine_def isDirective_def weave_def)
qed

lemma weave_processLines:
  "defaultTextOutput g \<noteq> [] \<Longrightarrow>
   weave (snd (processLines lines g)) = concat (textLines lines g)"
proof (induction lines arbitrary: g)
  case Nil
  show ?case by (simp add: weave_def)
next
  case (Cons line rest)
  from Cons.prems have "defaultTextOutput (fst (processLine line g)) \<noteq> []"
    by (simp add: processLine_defaults)
  then have "weave (snd (processLines rest (fst (processLine line g))))
             = concat (textLines rest (fst (processLine line g)))"
    by (rule Cons.IH)
  with weave_processLine[OF Cons.prems, of line] show ?case
    by (simp only: snd_processLines_Cons weave_append textLines.simps concat_append)
qed

lemma processLine_not_Boilerplate:
  assumes "state g \<noteq> Boilerplate_state" and "parseDirective line \<noteq> Some ''#--''"
  shows "state (fst (processLine line g)) \<noteq> Boilerplate_state"
proof (cases "parseDirective line")
  case (Some d)
  with assms(2) have "d \<noteq> ''#--''" by simp
  with Some show ?thesis
    by (simp add: processLine_directive processDirective_def)
next
  case None
  then show ?thesis using assms(1)
    by (cases "state g") (simp_all add: processLine_def Let_def)
qed

lemma textLines_without_boilerplate:
  "state g \<noteq> Boilerplate_state \<Longrightarrow>
   \<forall>l \<in> set lines. parseDirective l \<noteq> Some ''#--'' \<Longrightarrow>
   textLines lines g = withoutDirectives lines"
proof (induction lines arbitrary: g)
  case Nil
  show ?case by (simp add: withoutDirectives_def)
next
  case (Cons line rest)
  from Cons.prems have "state (fst (processLine line g)) \<noteq> Boilerplate_state"
    by (simp add: processLine_not_Boilerplate)
  moreover from Cons.prems have "\<forall>l \<in> set rest. parseDirective l \<noteq> Some ''#--''"
    by simp
  ultimately have "textLines rest (fst (processLine line g)) = withoutDirectives rest"
    by (rule Cons.IH)
  with Cons.prems(1) show ?case
    by (simp add: withoutDirectives_def)
qed

lemma ProcessFile_defaults_text_nonempty:
  "ProcessFile_defaults filename g = Some g1 \<Longrightarrow> defaultTextOutput g1 \<noteq> []"
  by (auto simp: ProcessFile_defaults_eq)

lemma ProcessFile_defaults_state:
  "ProcessFile_defaults filename g = Some g1 \<Longrightarrow> state g1 = state g"
  by (auto simp: ProcessFile_defaults_eq)

text \<open>
  C1, as the code has it. \<open>ProcessFile\<close> returns for every document, and the \<open>Text\<close>
  fields of its records with a non-empty \<open>TextTarget\<close>, concatenated in order, are the
  document without its directive lines and without the lines of its boilerplate runs
  (the indented or blank lines read in state \<open>Boilerplate\<close>). For a document that has no
  \<open><<#-->>\<close> directive, read from a state other than \<open>Boilerplate\<close>, this is the document
  with exactly the directive lines removed. The lines read concatenate to the document.
\<close>

theorem weave_reconstructs_document:
  "\<exists>g1 g' out.
     ProcessFile_defaults filename g = Some g1 \<and>
     ProcessFile filename (Some content) g = Some (g', Inr out) \<and>
     weave out = concat (textLines (readLines content) g1) \<and>
     (state g \<noteq> Boilerplate_state \<and>
      (\<forall>l \<in> set (readLines content). parseDirective l \<noteq> Some ''#--'') \<longrightarrow>
        weave out = concat (withoutDirectives (readLines content))) \<and>
     concat (readLines content) = content"
proof -
  obtain g1 where g1: "ProcessFile_defaults filename g = Some g1"
    by (simp add: ProcessFile_defaults_eq)
  let ?out = "snd (processLines (readLines content) g1)"
  have pf: "ProcessFile filename (Some content) g
            = Some (fst (processLines (readLines content) g1), Inr ?out)"
    by (simp add: ProcessFile_eq g1)
  have tt: "defaultTextOutput g1 \<noteq> []"
    using g1 by (rule ProcessFile_defaults_text_nonempty)
  then have w: "weave ?out = concat (textLines (readLines content) g1)"
    by (rule weave_processLines)
  have nb: "weave ?out = concat (withoutDirectives (readLines content))"
    if "state g \<noteq> Boilerplate_state"
      and "\<forall>l \<in> set (readLines content). parseDirective l \<noteq> Some ''#--''"
  proof -
    from that(1) g1 have "state g1 \<noteq> Boilerplate_state"
      by (simp add: ProcessFile_defaults_state)
    then have "textLines (readLines content) g1 = withoutDirectives (readLines content)"
      using that(2) by (rule textLines_without_boilerplate)
    with w show ?thesis by simp
  qed
  from g1 pf w nb concat_readLines[of content] show ?thesis by blast
qed

theorem weave_reconstructs_document_witness:
  "ProcessFile ''foo.cpp.md''
     (Some (''# T\<newline>'' @ CHR 0x09 # ''<<a.c>>\<newline>'' @ CHR 0x09 # ''x;''))
     initial_globals
   = Some (\<lparr>state = Code_state, defaultCodeOutput = ''foo.cpp'',
            defaultTextOutput = ''foo.md'', currentTarget = ''a.c''\<rparr>,
           Inr [\<lparr>Code = [], CodeTarget = [],
                 Text = ''# T\<newline>'', TextTarget = ''foo.md''\<rparr>,
                \<lparr>Code = ''x;'', CodeTarget = ''a.c'',
                 Text = CHR 0x09 # ''x;'', TextTarget = ''foo.md''\<rparr>]) \<and>
   state initial_globals \<noteq> Boilerplate_state \<and>
   weave [\<lparr>Code = [], CodeTarget = [],
           Text = ''# T\<newline>'', TextTarget = ''foo.md''\<rparr>,
          \<lparr>Code = ''x;'', CodeTarget = ''a.c'',
           Text = CHR 0x09 # ''x;'', TextTarget = ''foo.md''\<rparr>]
   = concat (withoutDirectives
       (readLines (''# T\<newline>'' @ CHR 0x09 # ''<<a.c>>\<newline>'' @ CHR 0x09 # ''x;'')))"
proof -
  let ?doc = "''# T\<newline>'' @ CHR 0x09 # ''<<a.c>>\<newline>'' @ CHR 0x09 # ''x;''"
  have lines: "readLines ?doc
               = [''# T\<newline>'', CHR 0x09 # ''<<a.c>>\<newline>'', CHR 0x09 # ''x;'']"
    by code_simp
  have d1: "parseDirective (''# T\<newline>'') = None"
    by code_simp
  have d2: "parseDirective (CHR 0x09 # ''<<a.c>>\<newline>'') = Some ''a.c''"
    by code_simp
  have d3: "parseDirective (CHR 0x09 # ''x;'') = None"
    by code_simp
  have names: "removeExtension ''foo.cpp.md'' = ''foo.cpp''"
    "spec_all_extensions_removed (Base ''foo.cpp.md'') = ''foo''"
    by code_simp+
  have run: "processLines
       [''# T\<newline>'', CHR 0x09 # ''<<a.c>>\<newline>'', CHR 0x09 # ''x;'']
       \<lparr>state = Text_state, defaultCodeOutput = ''foo.cpp'',
        defaultTextOutput = ''foo.md'', currentTarget = ''foo.cpp''\<rparr>
     = (\<lparr>state = Code_state, defaultCodeOutput = ''foo.cpp'',
         defaultTextOutput = ''foo.md'', currentTarget = ''a.c''\<rparr>,
        [\<lparr>Code = [], CodeTarget = [],
          Text = ''# T\<newline>'', TextTarget = ''foo.md''\<rparr>,
         \<lparr>Code = ''x;'', CodeTarget = ''a.c'',
          Text = CHR 0x09 # ''x;'', TextTarget = ''foo.md''\<rparr>])"
    by code_simp
  have pf: "ProcessFile ''foo.cpp.md'' (Some ?doc) initial_globals
     = Some (\<lparr>state = Code_state, defaultCodeOutput = ''foo.cpp'',
              defaultTextOutput = ''foo.md'', currentTarget = ''a.c''\<rparr>,
             Inr [\<lparr>Code = [], CodeTarget = [],
                   Text = ''# T\<newline>'', TextTarget = ''foo.md''\<rparr>,
                  \<lparr>Code = ''x;'', CodeTarget = ''a.c'',
                   Text = CHR 0x09 # ''x;'', TextTarget = ''foo.md''\<rparr>])"
    unfolding ProcessFile_eq ProcessFile_defaults_eq lines names
    by (simp add: initial_globals_def run del: processLines.simps)
  have st: "state initial_globals \<noteq> Boilerplate_state"
    by (simp add: initial_globals_def)
  have nb: "\<forall>l \<in> set (readLines ?doc). parseDirective l \<noteq> Some ''#--''"
    unfolding lines using d1 d2 d3 by simp
  from weave_reconstructs_document [of "''foo.cpp.md''" initial_globals ?doc]
  obtain g1 g' out where
    "ProcessFile ''foo.cpp.md'' (Some ?doc) initial_globals = Some (g', Inr out)"
    and "state initial_globals \<noteq> Boilerplate_state \<and>
         (\<forall>l \<in> set (readLines ?doc). parseDirective l \<noteq> Some ''#--'') \<longrightarrow>
           weave out = concat (withoutDirectives (readLines ?doc))"
    by blast
  with pf st nb show ?thesis by simp
qed

text \<open>
  The document \<open>foo.cpp.md\<close> with the two lines \<open><<#-->>\<close> and \<open>package x\<close>, both
  indented by a tab: the line \<open>package x\<close> is not a directive, but it is boilerplate, so
  no record carries it as text.
\<close>

theorem weave_reconstructs_document_counterexample:
  "ProcessFile ''foo.cpp.md''
     (Some (CHR 0x09 # ''<<#-->>\<newline>'' @ CHR 0x09 # ''package x\<newline>''))
     initial_globals
   = Some (\<lparr>state = Boilerplate_state, defaultCodeOutput = ''foo.cpp'',
            defaultTextOutput = ''foo.md'', currentTarget = ''foo.cpp''\<rparr>,
           Inr [\<lparr>Code = ''package x\<newline>'', CodeTarget = ''foo.cpp'',
                 Text = [], TextTarget = []\<rparr>,
                \<lparr>Code = [], CodeTarget = ''foo.cpp'', Text = [], TextTarget = []\<rparr>]) \<and>
   weave [\<lparr>Code = ''package x\<newline>'', CodeTarget = ''foo.cpp'',
           Text = [], TextTarget = []\<rparr>,
          \<lparr>Code = [], CodeTarget = ''foo.cpp'', Text = [], TextTarget = []\<rparr>] = [] \<and>
   concat (withoutDirectives (readLines
     (CHR 0x09 # ''<<#-->>\<newline>'' @ CHR 0x09 # ''package x\<newline>'')))
   = CHR 0x09 # ''package x\<newline>'' \<and>
   weave [\<lparr>Code = ''package x\<newline>'', CodeTarget = ''foo.cpp'',
           Text = [], TextTarget = []\<rparr>,
          \<lparr>Code = [], CodeTarget = ''foo.cpp'', Text = [], TextTarget = []\<rparr>]
   \<noteq> concat (withoutDirectives (readLines
     (CHR 0x09 # ''<<#-->>\<newline>'' @ CHR 0x09 # ''package x\<newline>'')))"
proof -
  let ?doc = "CHR 0x09 # ''<<#-->>\<newline>'' @ CHR 0x09 # ''package x\<newline>''"
  have lines: "readLines ?doc
               = [CHR 0x09 # ''<<#-->>\<newline>'', CHR 0x09 # ''package x\<newline>'', []]"
    by code_simp
  have names: "removeExtension ''foo.cpp.md'' = ''foo.cpp''"
    "spec_all_extensions_removed (Base ''foo.cpp.md'') = ''foo''"
    by code_simp+
  have run: "processLines
       [CHR 0x09 # ''<<#-->>\<newline>'', CHR 0x09 # ''package x\<newline>'', []]
       \<lparr>state = Text_state, defaultCodeOutput = ''foo.cpp'',
        defaultTextOutput = ''foo.md'', currentTarget = ''foo.cpp''\<rparr>
     = (\<lparr>state = Boilerplate_state, defaultCodeOutput = ''foo.cpp'',
         defaultTextOutput = ''foo.md'', currentTarget = ''foo.cpp''\<rparr>,
        [\<lparr>Code = ''package x\<newline>'', CodeTarget = ''foo.cpp'',
          Text = [], TextTarget = []\<rparr>,
         \<lparr>Code = [], CodeTarget = ''foo.cpp'', Text = [], TextTarget = []\<rparr>])"
    by code_simp
  have pf: "ProcessFile ''foo.cpp.md'' (Some ?doc) initial_globals
     = Some (\<lparr>state = Boilerplate_state, defaultCodeOutput = ''foo.cpp'',
              defaultTextOutput = ''foo.md'', currentTarget = ''foo.cpp''\<rparr>,
             Inr [\<lparr>Code = ''package x\<newline>'', CodeTarget = ''foo.cpp'',
                   Text = [], TextTarget = []\<rparr>,
                  \<lparr>Code = [], CodeTarget = ''foo.cpp'', Text = [], TextTarget = []\<rparr>])"
    unfolding ProcessFile_eq ProcessFile_defaults_eq lines names
    by (simp add: initial_globals_def run del: processLines.simps)
  have w: "weave [\<lparr>Code = ''package x\<newline>'', CodeTarget = ''foo.cpp'',
           Text = [], TextTarget = []\<rparr>,
          \<lparr>Code = [], CodeTarget = ''foo.cpp'', Text = [], TextTarget = []\<rparr>] = []"
    by (simp add: weave_def)
  have d: "concat (withoutDirectives (readLines ?doc)) = CHR 0x09 # ''package x\<newline>''"
    by code_simp
  from pf w d show ?thesis by simp
qed

section \<open>The fields of an emitted record\<close>

lemma processLine_code_fields:
  assumes "snd (processLine line g) = Some r"
  shows "(codeRow g line \<and> CodeTarget r = currentTarget g \<and> Code r = fst (unindent line)) \<or>
         (\<not> codeRow g line \<and> CodeTarget r = [] \<and> Code r = [])"
proof (cases "parseDirective line")
  case (Some d)
  with assms show ?thesis by (simp add: processLine_directive)
next
  case None
  with assms show ?thesis
    by (cases "state g") (auto simp: processLine_def codeRow_def split: if_splits)
qed

lemma processLine_text_fields:
  assumes "snd (processLine line g) = Some r"
  shows "(TextTarget r = defaultTextOutput g \<and> Text r = line) \<or>
         (state g = Boilerplate_state \<and> codeRow g line \<and> TextTarget r = [] \<and> Text r = [])"
proof (cases "parseDirective line")
  case (Some d)
  with assms show ?thesis by (simp add: processLine_directive)
next
  case None
  with assms show ?thesis
    by (cases "state g") (auto simp: processLine_def codeRow_def split: if_splits)
qed

lemma processLine_currentTarget_nonempty:
  assumes "currentTarget g \<noteq> []" and "defaultCodeOutput g \<noteq> []"
  shows "currentTarget (fst (processLine line g)) \<noteq> []"
proof (cases "parseDirective line")
  case (Some d)
  with assms show ?thesis
    by (simp add: processLine_directive processDirective_def)
next
  case None
  with assms show ?thesis
    by (cases "state g") (simp_all add: processLine_def Let_def)
qed

lemma processLine_record_ok:
  assumes "currentTarget g \<noteq> []" and "defaultTextOutput g \<noteq> []"
    and "snd (processLine line g) = Some r"
  shows "(CodeTarget r = [] \<longrightarrow> Code r = []) \<and> (CodeTarget r \<noteq> [] \<or> TextTarget r \<noteq> [])"
  using processLine_code_fields[OF assms(3)] processLine_text_fields[OF assms(3)] assms(1,2)
  by auto

lemma processLines_records_ok:
  "currentTarget g \<noteq> [] \<Longrightarrow> defaultCodeOutput g \<noteq> [] \<Longrightarrow> defaultTextOutput g \<noteq> [] \<Longrightarrow>
   r \<in> set (snd (processLines lines g)) \<Longrightarrow>
   (CodeTarget r = [] \<longrightarrow> Code r = []) \<and> (CodeTarget r \<noteq> [] \<or> TextTarget r \<noteq> [])"
proof (induction lines arbitrary: g)
  case Nil
  then show ?case by simp
next
  case (Cons line rest)
  let ?g' = "fst (processLine line g)"
  from Cons.prems(4)
  consider (here) "snd (processLine line g) = Some r"
    | (later) "r \<in> set (snd (processLines rest ?g'))"
    by (cases "snd (processLine line g)")
       (auto simp: snd_processLines_Cons simp del: processLines.simps(2))
  then show ?case
  proof cases
    case here
    with Cons.prems(1,3) show ?thesis by (rule processLine_record_ok)
  next
    case later
    have "currentTarget ?g' \<noteq> []"
      using Cons.prems(1,2) by (rule processLine_currentTarget_nonempty)
    moreover have "defaultCodeOutput ?g' \<noteq> []" "defaultTextOutput ?g' \<noteq> []"
      using Cons.prems(2,3) by (simp_all add: processLine_defaults)
    ultimately show ?thesis using later by (rule Cons.IH)
  qed
qed

text \<open>
  C6, as the code has it. In a record an absent field is the empty string. For a document
  whose default code target \<open>removeExtension filename\<close> is not empty, every record of
  \<open>ProcessFile\<close> with an empty \<open>CodeTarget\<close> has an empty \<open>Code\<close>, and none has both
  \<open>CodeTarget\<close> and \<open>TextTarget\<close> empty. For one line, read with a non-empty
  \<open>currentTarget\<close>: the record's \<open>CodeTarget\<close> is not empty exactly in the rows of the table
  that emit code, it is then \<open>currentTarget\<close> and \<open>Code\<close> is the line without its indent
  (which may be the empty string); otherwise \<open>Code\<close> is empty as well.
\<close>

theorem record_targets_present:
  "(removeExtension filename \<noteq> [] \<longrightarrow>
      (\<exists>g' out. ProcessFile filename (Some content) g = Some (g', Inr out) \<and>
         (\<forall>r \<in> set out. (CodeTarget r = [] \<longrightarrow> Code r = []) \<and>
                         (CodeTarget r \<noteq> [] \<or> TextTarget r \<noteq> [])))) \<and>
   (currentTarget h \<noteq> [] \<and> snd (processLine line h) = Some r \<longrightarrow>
      (CodeTarget r \<noteq> [] \<longleftrightarrow> codeRow h line) \<and>
      (CodeTarget r \<noteq> [] \<longrightarrow> CodeTarget r = currentTarget h \<and> Code r = fst (unindent line)) \<and>
      (CodeTarget r = [] \<longrightarrow> Code r = []) \<and>
      (defaultTextOutput h \<noteq> [] \<longrightarrow> CodeTarget r \<noteq> [] \<or> TextTarget r \<noteq> []))"
proof -
  have run: "\<exists>g' out. ProcessFile filename (Some content) g = Some (g', Inr out) \<and>
         (\<forall>r \<in> set out. (CodeTarget r = [] \<longrightarrow> Code r = []) \<and>
                         (CodeTarget r \<noteq> [] \<or> TextTarget r \<noteq> []))"
    if ne: "removeExtension filename \<noteq> []"
  proof -
    let ?g1 = "g\<lparr>defaultCodeOutput := removeExtension filename,
                  defaultTextOutput := spec_all_extensions_removed (Base filename) @ ''.md'',
                  currentTarget := removeExtension filename\<rparr>"
    let ?out = "snd (processLines (readLines content) ?g1)"
    have pf: "ProcessFile filename (Some content) g
              = Some (fst (processLines (readLines content) ?g1), Inr ?out)"
      by (simp add: ProcessFile_eq ProcessFile_defaults_eq)
    have "(CodeTarget r = [] \<longrightarrow> Code r = []) \<and> (CodeTarget r \<noteq> [] \<or> TextTarget r \<noteq> [])"
      if "r \<in> set ?out" for r
      using _ _ _ that by (rule processLines_records_ok) (simp_all add: ne)
    with pf show ?thesis by blast
  qed
  have step: "(CodeTarget r \<noteq> [] \<longleftrightarrow> codeRow h line) \<and>
      (CodeTarget r \<noteq> [] \<longrightarrow> CodeTarget r = currentTarget h \<and> Code r = fst (unindent line)) \<and>
      (CodeTarget r = [] \<longrightarrow> Code r = []) \<and>
      (defaultTextOutput h \<noteq> [] \<longrightarrow> CodeTarget r \<noteq> [] \<or> TextTarget r \<noteq> [])"
    if "currentTarget h \<noteq> []" and "snd (processLine line h) = Some r"
    using processLine_code_fields[OF that(2)] processLine_text_fields[OF that(2)] that(1)
    by auto
  from run step show ?thesis by blast
qed

theorem record_targets_present_witness:
  "removeExtension ''foo.cpp.md'' \<noteq> [] \<and>
   ProcessFile ''foo.cpp.md'' (Some (CHR 0x09 # ''x\<newline>'')) initial_globals
   = Some (\<lparr>state = Code_state, defaultCodeOutput = ''foo.cpp'',
            defaultTextOutput = ''foo.md'', currentTarget = ''foo.cpp''\<rparr>,
           Inr [\<lparr>Code = ''x\<newline>'', CodeTarget = ''foo.cpp'',
                 Text = CHR 0x09 # ''x\<newline>'', TextTarget = ''foo.md''\<rparr>,
                \<lparr>Code = [], CodeTarget = ''foo.cpp'', Text = [], TextTarget = ''foo.md''\<rparr>]) \<and>
   snd (processLine []
          \<lparr>state = Code_state, defaultCodeOutput = ''foo.cpp'',
           defaultTextOutput = ''foo.md'', currentTarget = ''foo.cpp''\<rparr>)
   = Some \<lparr>Code = [], CodeTarget = ''foo.cpp'', Text = [], TextTarget = ''foo.md''\<rparr> \<and>
   codeRow \<lparr>state = Code_state, defaultCodeOutput = ''foo.cpp'',
            defaultTextOutput = ''foo.md'', currentTarget = ''foo.cpp''\<rparr> [] \<and>
   fst (unindent []) = []"
proof -
  let ?h = "\<lparr>state = Code_state, defaultCodeOutput = ''foo.cpp'',
             defaultTextOutput = ''foo.md'', currentTarget = ''foo.cpp''\<rparr>"
  let ?r = "\<lparr>Code = [], CodeTarget = ''foo.cpp'', Text = [], TextTarget = ''foo.md''\<rparr>"
  have names: "removeExtension ''foo.cpp.md'' = ''foo.cpp''"
    "spec_all_extensions_removed (Base ''foo.cpp.md'') = ''foo''"
    by code_simp+
  have lines: "readLines (CHR 0x09 # ''x\<newline>'') = [CHR 0x09 # ''x\<newline>'', []]"
    by code_simp
  have run: "processLines [CHR 0x09 # ''x\<newline>'', []]
       \<lparr>state = Text_state, defaultCodeOutput = ''foo.cpp'',
        defaultTextOutput = ''foo.md'', currentTarget = ''foo.cpp''\<rparr>
     = (?h, [\<lparr>Code = ''x\<newline>'', CodeTarget = ''foo.cpp'',
               Text = CHR 0x09 # ''x\<newline>'', TextTarget = ''foo.md''\<rparr>, ?r])"
    by code_simp
  have pf: "ProcessFile ''foo.cpp.md'' (Some (CHR 0x09 # ''x\<newline>'')) initial_globals
     = Some (?h, Inr [\<lparr>Code = ''x\<newline>'', CodeTarget = ''foo.cpp'',
                       Text = CHR 0x09 # ''x\<newline>'', TextTarget = ''foo.md''\<rparr>, ?r])"
    unfolding ProcessFile_eq ProcessFile_defaults_eq lines names
    by (simp add: initial_globals_def run del: processLines.simps)
  have sent: "snd (processLine [] ?h) = Some ?r"
    by code_simp
  have u: "fst (unindent []) = []"
    by code_simp
  from record_targets_present [of "''foo.cpp.md''" "CHR 0x09 # ''x\<newline>''" initial_globals
      ?h "[]" ?r]
  have "currentTarget ?h \<noteq> [] \<and> snd (processLine [] ?h) = Some ?r \<longrightarrow>
          (CodeTarget ?r \<noteq> [] \<longleftrightarrow> codeRow ?h [])"
    by blast
  with sent have "codeRow ?h []" by simp
  with names pf sent u show ?thesis by simp
qed

text \<open>
  Two documents. In \<open>foo.cpp.md\<close> with the one line \<open>x\<close>, indented by a tab and ended
  by a newline, the empty rest after the newline continues the code run: its record has
  the code target \<open>foo.cpp\<close> and the empty string as code. In \<open>.md\<close> with the line \<open>x\<close>,
  indented by a tab, \<open>filepath.Ext\<close> takes the whole name for the extension, so the
  default code target is empty: the record has the code \<open>x\<close> and no code target.
\<close>

theorem record_targets_present_counterexample:
  "ProcessFile ''foo.cpp.md'' (Some (CHR 0x09 # ''x\<newline>'')) initial_globals
   = Some (\<lparr>state = Code_state, defaultCodeOutput = ''foo.cpp'',
            defaultTextOutput = ''foo.md'', currentTarget = ''foo.cpp''\<rparr>,
           Inr [\<lparr>Code = ''x\<newline>'', CodeTarget = ''foo.cpp'',
                 Text = CHR 0x09 # ''x\<newline>'', TextTarget = ''foo.md''\<rparr>,
                \<lparr>Code = [], CodeTarget = ''foo.cpp'', Text = [], TextTarget = ''foo.md''\<rparr>]) \<and>
   ProcessFile ''.md'' (Some (CHR 0x09 # ''x'')) initial_globals
   = Some (\<lparr>state = Code_state, defaultCodeOutput = [],
            defaultTextOutput = ''.md'', currentTarget = []\<rparr>,
           Inr [\<lparr>Code = ''x'', CodeTarget = [],
                 Text = CHR 0x09 # ''x'', TextTarget = ''.md''\<rparr>])"
proof -
  have names1: "removeExtension ''foo.cpp.md'' = ''foo.cpp''"
    "spec_all_extensions_removed (Base ''foo.cpp.md'') = ''foo''"
    by code_simp+
  have lines1: "readLines (CHR 0x09 # ''x\<newline>'') = [CHR 0x09 # ''x\<newline>'', []]"
    by code_simp
  have run1: "processLines [CHR 0x09 # ''x\<newline>'', []]
       \<lparr>state = Text_state, defaultCodeOutput = ''foo.cpp'',
        defaultTextOutput = ''foo.md'', currentTarget = ''foo.cpp''\<rparr>
     = (\<lparr>state = Code_state, defaultCodeOutput = ''foo.cpp'',
         defaultTextOutput = ''foo.md'', currentTarget = ''foo.cpp''\<rparr>,
        [\<lparr>Code = ''x\<newline>'', CodeTarget = ''foo.cpp'',
          Text = CHR 0x09 # ''x\<newline>'', TextTarget = ''foo.md''\<rparr>,
         \<lparr>Code = [], CodeTarget = ''foo.cpp'', Text = [], TextTarget = ''foo.md''\<rparr>])"
    by code_simp
  have first: "ProcessFile ''foo.cpp.md'' (Some (CHR 0x09 # ''x\<newline>'')) initial_globals
   = Some (\<lparr>state = Code_state, defaultCodeOutput = ''foo.cpp'',
            defaultTextOutput = ''foo.md'', currentTarget = ''foo.cpp''\<rparr>,
           Inr [\<lparr>Code = ''x\<newline>'', CodeTarget = ''foo.cpp'',
                 Text = CHR 0x09 # ''x\<newline>'', TextTarget = ''foo.md''\<rparr>,
                \<lparr>Code = [], CodeTarget = ''foo.cpp'', Text = [], TextTarget = ''foo.md''\<rparr>])"
    unfolding ProcessFile_eq ProcessFile_defaults_eq lines1 names1
    by (simp add: initial_globals_def run1 del: processLines.simps)
  have names2: "removeExtension ''.md'' = []"
    "spec_all_extensions_removed (Base ''.md'') = []"
    by code_simp+
  have lines2: "readLines (CHR 0x09 # ''x'') = [CHR 0x09 # ''x'']"
    by code_simp
  have run2: "processLines [CHR 0x09 # ''x'']
       \<lparr>state = Text_state, defaultCodeOutput = [],
        defaultTextOutput = ''.md'', currentTarget = []\<rparr>
     = (\<lparr>state = Code_state, defaultCodeOutput = [],
         defaultTextOutput = ''.md'', currentTarget = []\<rparr>,
        [\<lparr>Code = ''x'', CodeTarget = [], Text = CHR 0x09 # ''x'', TextTarget = ''.md''\<rparr>])"
    by code_simp
  have second: "ProcessFile ''.md'' (Some (CHR 0x09 # ''x'')) initial_globals
   = Some (\<lparr>state = Code_state, defaultCodeOutput = [],
            defaultTextOutput = ''.md'', currentTarget = []\<rparr>,
           Inr [\<lparr>Code = ''x'', CodeTarget = [],
                 Text = CHR 0x09 # ''x'', TextTarget = ''.md''\<rparr>])"
    unfolding ProcessFile_eq ProcessFile_defaults_eq lines2 names2
    by (simp add: initial_globals_def run2 del: processLines.simps)
  from first second show ?thesis by (rule conjI)
qed

section \<open>The default targets of a document\<close>

lemma processLine_before_directive:
  assumes "\<not> isDirective line" and "state g \<noteq> Example_state"
  shows "state (fst (processLine line g)) \<noteq> Example_state \<and>
         currentTarget (fst (processLine line g)) = currentTarget g"
proof -
  from assms(1) have "parseDirective line = None" by (simp add: isDirective_def)
  then show ?thesis using assms(2)
    by (cases "state g") (simp_all add: processLine_def Let_def)
qed

lemma processLines_before_directive:
  "\<forall>l \<in> set pre. \<not> isDirective l \<Longrightarrow> state g \<noteq> Example_state \<Longrightarrow>
   state (fst (processLines pre g)) \<noteq> Example_state \<and>
   currentTarget (fst (processLines pre g)) = currentTarget g"
proof (induction pre arbitrary: g)
  case Nil
  then show ?case by simp
next
  case (Cons line rest)
  from Cons.prems have step: "state (fst (processLine line g)) \<noteq> Example_state \<and>
         currentTarget (fst (processLine line g)) = currentTarget g"
    by (simp add: processLine_before_directive)
  moreover from Cons.prems have "\<forall>l \<in> set rest. \<not> isDirective l" by simp
  ultimately have "state (fst (processLines rest (fst (processLine line g)))) \<noteq> Example_state \<and>
     currentTarget (fst (processLines rest (fst (processLine line g))))
       = currentTarget (fst (processLine line g))"
    using Cons.IH[of "fst (processLine line g)"] by blast
  with step show ?case
    by (simp add: fst_processLines_Cons del: processLines.simps(2))
qed

lemma indented_line_record:
  assumes "\<not> isDirective line" and "snd (unindent line)" and "state g \<noteq> Example_state"
  shows "\<exists>r. snd (processLine line g) = Some r \<and> CodeTarget r = currentTarget g \<and>
             Code r = fst (unindent line)"
proof -
  from assms(1) have "parseDirective line = None" by (simp add: isDirective_def)
  then show ?thesis using assms(2,3)
    by (cases "state g") (simp_all add: processLine_def Let_def)
qed

text \<open>
  What \<open>ProcessFile\<close> sets up. \<open>defaultCodeOutput\<close> is the name of the document (the
  last element of its path, \<open>filepath.Base\<close>) without its final extension,
  \<open>defaultTextOutput\<close> is that name without all its extensions, followed by \<open>.md\<close>, and
  \<open>currentTarget\<close> is \<open>defaultCodeOutput\<close>: \<open>foo.cpp.md\<close> gives \<open>foo.cpp\<close> and \<open>foo.md\<close>.
  The variable \<open>state\<close> is left as it is. If it is not \<open>Example\<close>, every indented line in
  front of the first directive is emitted with its code and with
  \<open>CodeTarget = defaultCodeOutput\<close>.
\<close>

lemma ProcessFile_sets_targets:
  "(\<exists>g1. ProcessFile_defaults filename g = Some g1 \<and>
      defaultCodeOutput g1 = spec_final_extension_removed (Base filename) \<and>
      defaultTextOutput g1 = spec_all_extensions_removed (Base filename) @ ''.md'' \<and>
      currentTarget g1 = defaultCodeOutput g1 \<and>
      state g1 = state g \<and>
      (state g \<noteq> Example_state \<and> (\<forall>l \<in> set pre. \<not> isDirective l) \<and>
       \<not> isDirective line \<and> snd (unindent line) \<longrightarrow>
         (\<exists>r. snd (processLine line (fst (processLines pre g1))) = Some r \<and>
              CodeTarget r = defaultCodeOutput g1 \<and> Code r = fst (unindent line)))) \<and>
   (CHR ''/'' \<notin> set filename \<and> filename \<noteq> [] \<longrightarrow> Base filename = filename) \<and>
   ProcessFile_defaults ''foo.cpp.md'' g =
     Some (g\<lparr>defaultCodeOutput := ''foo.cpp'', defaultTextOutput := ''foo.md'',
             currentTarget := ''foo.cpp''\<rparr>)"
proof -
  let ?g1 = "g\<lparr>defaultCodeOutput := removeExtension filename,
                defaultTextOutput := spec_all_extensions_removed (Base filename) @ ''.md'',
                currentTarget := removeExtension filename\<rparr>"
  have g1: "ProcessFile_defaults filename g = Some ?g1"
    by (rule ProcessFile_defaults_eq)
  have emitted: "\<exists>r. snd (processLine line (fst (processLines pre ?g1))) = Some r \<and>
              CodeTarget r = defaultCodeOutput ?g1 \<and> Code r = fst (unindent line)"
    if "state g \<noteq> Example_state" "\<forall>l \<in> set pre. \<not> isDirective l"
      "\<not> isDirective line" "snd (unindent line)"
  proof -
    from that(1) have "state ?g1 \<noteq> Example_state" by simp
    with that(2) have inv: "state (fst (processLines pre ?g1)) \<noteq> Example_state \<and>
        currentTarget (fst (processLines pre ?g1)) = currentTarget ?g1"
      by (rule processLines_before_directive)
    with indented_line_record[OF that(3,4), of "fst (processLines pre ?g1)"]
    show ?thesis by simp
  qed
  have first: "\<exists>g1. ProcessFile_defaults filename g = Some g1 \<and>
      defaultCodeOutput g1 = spec_final_extension_removed (Base filename) \<and>
      defaultTextOutput g1 = spec_all_extensions_removed (Base filename) @ ''.md'' \<and>
      currentTarget g1 = defaultCodeOutput g1 \<and>
      state g1 = state g \<and>
      (state g \<noteq> Example_state \<and> (\<forall>l \<in> set pre. \<not> isDirective l) \<and>
       \<not> isDirective line \<and> snd (unindent line) \<longrightarrow>
         (\<exists>r. snd (processLine line (fst (processLines pre g1))) = Some r \<and>
              CodeTarget r = defaultCodeOutput g1 \<and> Code r = fst (unindent line)))"
    using g1 emitted by (intro exI[of _ ?g1]) (simp add: removeExtension_eq)
  have plain: "Base filename = filename" if "CHR ''/'' \<notin> set filename" "filename \<noteq> []"
    using that by (rule Base_idem)
  have names: "removeExtension ''foo.cpp.md'' = ''foo.cpp''"
    "spec_all_extensions_removed (Base ''foo.cpp.md'') = ''foo''"
    by code_simp+
  have example: "ProcessFile_defaults ''foo.cpp.md'' g =
     Some (g\<lparr>defaultCodeOutput := ''foo.cpp'', defaultTextOutput := ''foo.md'',
             currentTarget := ''foo.cpp''\<rparr>)"
    unfolding ProcessFile_defaults_eq names by simp
  from first plain example show ?thesis by blast
qed

text \<open>
  C9. The targets are set as stated, but \<open>ProcessFile\<close> never assigns \<open>state\<close>, which
  is \<open>Text\<close> only when the program starts. The document \<open>a.c.md\<close> ends inside an example
  run, so the variables after it have \<open>state = Example\<close>. The next document, \<open>b.c.md\<close>,
  is the one line \<open>y\<close>, indented by a tab, with no directive in front of it: the line is
  emitted as text only, with an empty \<open>CodeTarget\<close>, although \<open>defaultCodeOutput\<close> and
  \<open>currentTarget\<close> are \<open>b.c\<close>. The variant with state functions starts every document in
  \<open>stateText\<close>.
\<close>

theorem ProcessFile_keeps_state:
  "ProcessFile ''a.c.md'' (Some (CHR 0x09 # ''<<!-->>\<newline>'' @ CHR 0x09 # ''x'')) initial_globals
   = Some (\<lparr>state = Example_state, defaultCodeOutput = ''a.c'',
            defaultTextOutput = ''a.md'', currentTarget = ''a.c''\<rparr>,
           Inr [\<lparr>Code = [], CodeTarget = [],
                 Text = CHR 0x09 # ''x'', TextTarget = ''a.md''\<rparr>]) \<and>
   \<not> isDirective (CHR 0x09 # ''y'') \<and> snd (unindent (CHR 0x09 # ''y'')) \<and>
   ProcessFile ''b.c.md'' (Some (CHR 0x09 # ''y''))
     \<lparr>state = Example_state, defaultCodeOutput = ''a.c'',
      defaultTextOutput = ''a.md'', currentTarget = ''a.c''\<rparr>
   = Some (\<lparr>state = Example_state, defaultCodeOutput = ''b.c'',
            defaultTextOutput = ''b.md'', currentTarget = ''b.c''\<rparr>,
           Inr [\<lparr>Code = [], CodeTarget = [],
                 Text = CHR 0x09 # ''y'', TextTarget = ''b.md''\<rparr>])"
proof -
  have names1: "removeExtension ''a.c.md'' = ''a.c''"
    "spec_all_extensions_removed (Base ''a.c.md'') = ''a''"
    by code_simp+
  have lines1: "readLines (CHR 0x09 # ''<<!-->>\<newline>'' @ CHR 0x09 # ''x'')
                = [CHR 0x09 # ''<<!-->>\<newline>'', CHR 0x09 # ''x'']"
    by code_simp
  have run1: "processLines [CHR 0x09 # ''<<!-->>\<newline>'', CHR 0x09 # ''x'']
       \<lparr>state = Text_state, defaultCodeOutput = ''a.c'',
        defaultTextOutput = ''a.md'', currentTarget = ''a.c''\<rparr>
     = (\<lparr>state = Example_state, defaultCodeOutput = ''a.c'',
         defaultTextOutput = ''a.md'', currentTarget = ''a.c''\<rparr>,
        [\<lparr>Code = [], CodeTarget = [], Text = CHR 0x09 # ''x'', TextTarget = ''a.md''\<rparr>])"
    by code_simp
  have first: "ProcessFile ''a.c.md''
       (Some (CHR 0x09 # ''<<!-->>\<newline>'' @ CHR 0x09 # ''x'')) initial_globals
   = Some (\<lparr>state = Example_state, defaultCodeOutput = ''a.c'',
            defaultTextOutput = ''a.md'', currentTarget = ''a.c''\<rparr>,
           Inr [\<lparr>Code = [], CodeTarget = [],
                 Text = CHR 0x09 # ''x'', TextTarget = ''a.md''\<rparr>])"
    unfolding ProcessFile_eq ProcessFile_defaults_eq lines1 names1
    by (simp add: initial_globals_def run1 del: processLines.simps)
  have names2: "removeExtension ''b.c.md'' = ''b.c''"
    "spec_all_extensions_removed (Base ''b.c.md'') = ''b''"
    by code_simp+
  have lines2: "readLines (CHR 0x09 # ''y'') = [CHR 0x09 # ''y'']"
    by code_simp
  have run2: "processLines [CHR 0x09 # ''y'']
       \<lparr>state = Example_state, defaultCodeOutput = ''b.c'',
        defaultTextOutput = ''b.md'', currentTarget = ''b.c''\<rparr>
     = (\<lparr>state = Example_state, defaultCodeOutput = ''b.c'',
         defaultTextOutput = ''b.md'', currentTarget = ''b.c''\<rparr>,
        [\<lparr>Code = [], CodeTarget = [], Text = CHR 0x09 # ''y'', TextTarget = ''b.md''\<rparr>])"
    by code_simp
  have second: "ProcessFile ''b.c.md'' (Some (CHR 0x09 # ''y''))
     \<lparr>state = Example_state, defaultCodeOutput = ''a.c'',
      defaultTextOutput = ''a.md'', currentTarget = ''a.c''\<rparr>
   = Some (\<lparr>state = Example_state, defaultCodeOutput = ''b.c'',
            defaultTextOutput = ''b.md'', currentTarget = ''b.c''\<rparr>,
           Inr [\<lparr>Code = [], CodeTarget = [],
                 Text = CHR 0x09 # ''y'', TextTarget = ''b.md''\<rparr>])"
    unfolding ProcessFile_eq ProcessFile_defaults_eq lines2 names2
    by (simp add: run2 del: processLines.simps)
  have nd: "\<not> isDirective (CHR 0x09 # ''y'')"
    unfolding isDirective_def by code_simp
  have ind: "snd (unindent (CHR 0x09 # ''y''))"
    by code_simp
  from first nd ind second show ?thesis by (intro conjI)
qed

section \<open>The two variants agree\<close>

lemma callBound_processLine:
  "fst (callBound b line) = snd (processLine line (globals_of b)) \<and>
   globals_of (snd (callBound b line)) = fst (processLine line (globals_of b))"
proof (cases b)
  case (partialState s data)
  show ?thesis
  proof (cases "parseDirective line")
    case (Some d)
    then show ?thesis
      by (simp add: partialState processLine_directive processDirective_def
            processDirective_bound_def)
  next
    case None
    then show ?thesis
      by (cases s)
         (simp_all add: partialState processLine_def stateCode_def stateBoilerplate_def
            stateExample_def stateText_def Let_def)
  qed
qed

lemma callBounds_processLines:
  "fst (callBounds b lines) = snd (processLines lines (globals_of b)) \<and>
   globals_of (snd (callBounds b lines)) = fst (processLines lines (globals_of b))"
proof (induction lines arbitrary: b)
  case Nil
  show ?case by simp
next
  case (Cons line rest)
  obtain sent nxt where c: "callBound b line = (sent, nxt)"
    by (cases "callBound b line")
  with callBound_processLine[of b line]
  have one: "snd (processLine line (globals_of b)) = sent"
    "fst (processLine line (globals_of b)) = globals_of nxt"
    by simp_all
  obtain out final where r: "callBounds nxt rest = (out, final)"
    by (cases "callBounds nxt rest")
  with Cons.IH[of nxt]
  have more: "snd (processLines rest (globals_of nxt)) = out"
    "fst (processLines rest (globals_of nxt)) = globals_of final"
    by simp_all
  show ?case
    by (simp add: c r fst_processLines_Cons snd_processLines_Cons one more
          del: processLines.simps(2))
qed

end
